theory Spec2Isabelle
  imports Main "HOL-Library.Word"
begin

section \<open>JavaScript strings\<close>

text \<open>
  A JavaScript string is a sequence of 16-bit code units, and is modelled as one: a
  \<open>jstring\<close> is a list of \<open>16 word\<close>, so \<open>length\<close> is the source's \<open>.length\<close>, and a
  character outside the Basic Multilingual Plane is the two code units of its surrogate
  pair. \<open>js\<close> gives the code units of a string that the source writes in ASCII. An
  optional property (\<open>apiKey?: string\<close>) is a \<open>jstring option\<close>, with \<open>None\<close> for
  \<open>undefined\<close>.

  File paths, the \<open>code\<close> of a file-system error and the message templates of the logger
  are kept as \<open>string\<close>: the program joins and compares them and never looks into them.
\<close>

type_synonym code_unit = "16 word"

type_synonym jstring = "code_unit list"

definition js :: "string \<Rightarrow> jstring" where
  "js s = map of_char s"

definition truthy_str :: "jstring option \<Rightarrow> bool" where
  \<comment> \<open>ToBoolean on \<open>string | undefined\<close>: \<open>undefined\<close> and the empty string are falsy.\<close>
  "truthy_str v = (case v of None \<Rightarrow> False | Some s \<Rightarrow> s \<noteq> [])"

definition js_or :: "jstring option \<Rightarrow> jstring option \<Rightarrow> jstring option" where
  \<comment> \<open>\<open>a || b\<close> on optional strings: \<open>a\<close> when it is truthy, else \<open>b\<close>.\<close>
  "js_or a b = (if truthy_str a then a else b)"

definition js_or_str :: "jstring option \<Rightarrow> jstring \<Rightarrow> jstring" where
  \<comment> \<open>\<open>a || d\<close> where \<open>d\<close> is a string: the result is a string.\<close>
  "js_or_str a d = (case a of None \<Rightarrow> d | Some s \<Rightarrow> if s \<noteq> [] then s else d)"

definition is_js_space :: "code_unit \<Rightarrow> bool" where
  \<comment> \<open>The white space and line terminators \<open>trim\<close> strips: TAB, LF, VT, FF, CR, SP,
      NBSP, U+1680, U+2000 to U+200A, U+2028, U+2029, U+202F, U+205F, U+3000 and
      U+FEFF.\<close>
  "is_js_space c =
     (c = 0x09 \<or> c = 0x0A \<or> c = 0x0B \<or> c = 0x0C \<or> c = 0x0D \<or> c = 0x20 \<or> c = 0xA0
      \<or> c = 0x1680 \<or> (0x2000 \<le> c \<and> c \<le> 0x200A) \<or> c = 0x2028 \<or> c = 0x2029
      \<or> c = 0x202F \<or> c = 0x205F \<or> c = 0x3000 \<or> c = 0xFEFF)"

definition js_trim :: "jstring \<Rightarrow> jstring" where
  "js_trim s = rev (dropWhile is_js_space (rev (dropWhile is_js_space s)))"

definition substring :: "jstring \<Rightarrow> nat \<Rightarrow> nat \<Rightarrow> jstring" where
  \<comment> \<open>\<open>s.substring(a, b)\<close>: both indices are clamped to the length and swapped when
      \<open>a > b\<close>.\<close>
  "substring s a b =
     (let a' = min a (length s); b' = min b (length s)
      in take (max a' b' - min a' b') (drop (min a' b') s))"

definition substring_from :: "jstring \<Rightarrow> nat \<Rightarrow> jstring" where
  \<comment> \<open>\<open>s.substring(a)\<close>: the end index defaults to the length.\<close>
  "substring_from s a = substring s a (length s)"

definition is_high_surrogate :: "code_unit \<Rightarrow> bool" where
  "is_high_surrogate c = (0xD800 \<le> c \<and> c \<le> 0xDBFF)"

definition is_low_surrogate :: "code_unit \<Rightarrow> bool" where
  "is_low_surrogate c = (0xDC00 \<le> c \<and> c \<le> 0xDFFF)"

fun toWellFormed :: "jstring \<Rightarrow> jstring" where
  \<comment> \<open>\<open>s.toWellFormed()\<close>: a surrogate that is not half of a pair becomes U+FFFD. This
      is what is left of a string once it has been encoded as UTF-8 and decoded again.\<close>
  "toWellFormed [] = []"
| "toWellFormed [c] = (if is_high_surrogate c \<or> is_low_surrogate c then [0xFFFD] else [c])"
| "toWellFormed (c # d # cs) =
     (if is_high_surrogate c \<and> is_low_surrogate d then c # d # toWellFormed cs
      else if is_high_surrogate c \<or> is_low_surrogate c then 0xFFFD # toWellFormed (d # cs)
      else c # toWellFormed (d # cs))"

section \<open>JSON values, \<open>JSON.parse\<close> and \<open>JSON.stringify\<close>\<close>

text \<open>
  The value \<open>JSON.parse\<close> returns. A number is kept as its decimal mantissa and
  exponent (\<open>JNum m e\<close> stands for \<open>m * 10^e\<close>), which is all the program can see of
  it: whether it is truthy. An object keeps its members in the order of the text;
  a repeated key reads as its last occurrence.

  The grammar is written over code units, as ECMA-404 gives it: \<open>0x22\<close> is the quotation
  mark, \<open>0x5C\<close> the reverse solidus, \<open>0x2F\<close> the solidus, \<open>0x7B\<close> and \<open>0x7D\<close> the
  braces, \<open>0x5B\<close> and \<open>0x5D\<close> the brackets, \<open>0x3A\<close> the colon, \<open>0x2C\<close> the comma,
  \<open>0x2D\<close> the minus sign, \<open>0x2B\<close> the plus sign, \<open>0x2E\<close> the full stop, \<open>0x30\<close> to
  \<open>0x39\<close> the digits, \<open>0x61\<close> to \<open>0x66\<close> and \<open>0x41\<close> to \<open>0x46\<close> the letters of a
  hexadecimal number, \<open>0x65\<close> and \<open>0x45\<close> the two letters that start an exponent, and
  \<open>0x62\<close>, \<open>0x66\<close>, \<open>0x6E\<close>, \<open>0x72\<close>, \<open>0x74\<close>, \<open>0x75\<close> the letters \<open>b\<close>, \<open>f\<close>,
  \<open>n\<close>, \<open>r\<close>, \<open>t\<close>, \<open>u\<close> of the escapes (lemma \<open>js_table\<close> below).
\<close>

datatype json =
    JNull
  | JBool bool
  | JNum int int
  | JStr jstring
  | JArr "json list"
  | JObj "(jstring \<times> json) list"

definition obj_get :: "(jstring \<times> json) list \<Rightarrow> jstring \<Rightarrow> json option" where
  "obj_get kvs k = map_of (rev kvs) k"

fun truthy :: "json option \<Rightarrow> bool" where
  \<comment> \<open>ToBoolean on a parsed value or \<open>undefined\<close>. A number is falsy when it is zero as
      a double: its literal is zero, or so small that it rounds to zero (at most
      \<open>2^-1075\<close> in magnitude).\<close>
  "truthy None = False"
| "truthy (Some JNull) = False"
| "truthy (Some (JBool b)) = b"
| "truthy (Some (JNum m e)) = (m \<noteq> 0 \<and> (0 \<le> e \<or> 10 ^ nat (- e) < \<bar>m\<bar> * 2 ^ 1075))"
| "truthy (Some (JStr s)) = (s \<noteq> [])"
| "truthy (Some (JArr xs)) = True"
| "truthy (Some (JObj kvs)) = True"

definition is_ws :: "code_unit \<Rightarrow> bool" where
  "is_ws c = (c = 0x20 \<or> c = 0x09 \<or> c = 0x0A \<or> c = 0x0D)"

definition skip_ws :: "jstring \<Rightarrow> jstring" where
  "skip_ws cs = dropWhile is_ws cs"

definition is_digit :: "code_unit \<Rightarrow> bool" where
  "is_digit c = (0x30 \<le> c \<and> c \<le> 0x39)"

definition hex_val :: "code_unit \<Rightarrow> nat option" where
  "hex_val c =
     (if 0x30 \<le> c \<and> c \<le> 0x39 then Some (unat c - 0x30)
      else if 0x61 \<le> c \<and> c \<le> 0x66 then Some (unat c - 0x57)
      else if 0x41 \<le> c \<and> c \<le> 0x46 then Some (unat c - 0x37)
      else None)"

definition unescape :: "code_unit \<Rightarrow> code_unit option" where
  "unescape e =
     (if e = 0x22 then Some 0x22
      else if e = 0x5C then Some 0x5C
      else if e = 0x2F then Some 0x2F
      else if e = 0x62 then Some 0x08
      else if e = 0x66 then Some 0x0C
      else if e = 0x6E then Some 0x0A
      else if e = 0x72 then Some 0x0D
      else if e = 0x74 then Some 0x09
      else None)"

fun parse_chars :: "jstring \<Rightarrow> (jstring \<times> jstring) option" where
  "parse_chars [] = None"
| "parse_chars (c # cs) =
     (if c = 0x22 then Some ([], cs)
      else if c = 0x5C then
        (case cs of
           [] \<Rightarrow> None
         | e # r \<Rightarrow>
             if e = 0x75 then
               (case r of
                  h1 # h2 # h3 # h4 # r' \<Rightarrow>
                    (case (hex_val h1, hex_val h2, hex_val h3, hex_val h4) of
                       (Some a, Some b, Some c', Some d) \<Rightarrow>
                         (case parse_chars r' of
                            None \<Rightarrow> None
                          | Some (s, rest) \<Rightarrow>
                              Some (of_nat (((a * 16 + b) * 16 + c') * 16 + d) # s, rest))
                     | _ \<Rightarrow> None)
                | _ \<Rightarrow> None)
             else
               (case unescape e of
                  None \<Rightarrow> None
                | Some x \<Rightarrow>
                    (case parse_chars r of
                       None \<Rightarrow> None
                     | Some (s, rest) \<Rightarrow> Some (x # s, rest))))
      else if c < 0x20 then None
      else
        (case parse_chars cs of
           None \<Rightarrow> None
         | Some (s, rest) \<Rightarrow> Some (c # s, rest)))"

definition digit_val :: "code_unit \<Rightarrow> nat" where
  "digit_val c = unat c - 0x30"

definition digits_val :: "jstring \<Rightarrow> nat" where
  "digits_val ds = foldl (\<lambda>acc c. acc * 10 + digit_val c) 0 ds"

definition parse_number :: "jstring \<Rightarrow> (json \<times> jstring) option" where
  "parse_number cs =
     (let neg = (case cs of c # _ \<Rightarrow> c = 0x2D | [] \<Rightarrow> False);
          r0 = (if neg then tl cs else cs);
          ip = takeWhile is_digit r0;
          r1 = dropWhile is_digit r0
      in if ip = [] \<or> (1 < length ip \<and> hd ip = 0x30) then None
         else
           (let has_frac = (case r1 of c # _ \<Rightarrow> c = 0x2E | [] \<Rightarrow> False);
                fp = (if has_frac then takeWhile is_digit (tl r1) else []);
                r2 = (if has_frac then dropWhile is_digit (tl r1) else r1)
            in if has_frac \<and> fp = [] then None
               else
                 (let has_exp = (case r2 of c # _ \<Rightarrow> c = 0x65 \<or> c = 0x45 | [] \<Rightarrow> False);
                      r3 = (if has_exp then tl r2 else r2);
                      eneg = (has_exp \<and> (case r3 of c # _ \<Rightarrow> c = 0x2D | [] \<Rightarrow> False));
                      epos = (has_exp \<and> (case r3 of c # _ \<Rightarrow> c = 0x2B | [] \<Rightarrow> False));
                      r4 = (if eneg \<or> epos then tl r3 else r3);
                      ep = (if has_exp then takeWhile is_digit r4 else []);
                      r5 = (if has_exp then dropWhile is_digit r4 else r2)
                  in if has_exp \<and> ep = [] then None
                     else
                       (let m = int (digits_val (ip @ fp));
                            e = int (digits_val ep)
                        in Some (JNum (if neg then - m else m)
                                   ((if eneg then - e else e) - int (length fp)), r5)))))"

fun parse_value :: "nat \<Rightarrow> jstring \<Rightarrow> (json \<times> jstring) option"
  and parse_members :: "nat \<Rightarrow> (jstring \<times> json) list \<Rightarrow> jstring \<Rightarrow> (json \<times> jstring) option"
  and parse_elements :: "nat \<Rightarrow> json list \<Rightarrow> jstring \<Rightarrow> (json \<times> jstring) option"
where
  "parse_value 0 cs = None"
| "parse_value (Suc n) cs =
     (case skip_ws cs of
        [] \<Rightarrow> None
      | c # r \<Rightarrow>
          if c = 0x7B then
            (case skip_ws r of
               [] \<Rightarrow> None
             | c' # r' \<Rightarrow> if c' = 0x7D then Some (JObj [], r') else parse_members n [] (c' # r'))
          else if c = 0x5B then
            (case skip_ws r of
               [] \<Rightarrow> None
             | c' # r' \<Rightarrow> if c' = 0x5D then Some (JArr [], r') else parse_elements n [] (c' # r'))
          else if c = 0x22 then
            (case parse_chars r of None \<Rightarrow> None | Some (s, rest) \<Rightarrow> Some (JStr s, rest))
          else if take 4 (c # r) = js ''true'' then Some (JBool True, drop 4 (c # r))
          else if take 5 (c # r) = js ''false'' then Some (JBool False, drop 5 (c # r))
          else if take 4 (c # r) = js ''null'' then Some (JNull, drop 4 (c # r))
          else parse_number (c # r))"
| "parse_members 0 acc cs = None"
| "parse_members (Suc n) acc cs =
     (case skip_ws cs of
        [] \<Rightarrow> None
      | c # r \<Rightarrow>
          if c \<noteq> 0x22 then None
          else
            (case parse_chars r of
               None \<Rightarrow> None
             | Some (k, r1) \<Rightarrow>
                 (case skip_ws r1 of
                    [] \<Rightarrow> None
                  | c1 # r2 \<Rightarrow>
                      if c1 \<noteq> 0x3A then None
                      else
                        (case parse_value n r2 of
                           None \<Rightarrow> None
                         | Some (v, r3) \<Rightarrow>
                             (case skip_ws r3 of
                                [] \<Rightarrow> None
                              | c2 # r4 \<Rightarrow>
                                  if c2 = 0x2C then parse_members n (acc @ [(k, v)]) r4
                                  else if c2 = 0x7D then Some (JObj (acc @ [(k, v)]), r4)
                                  else None)))))"
| "parse_elements 0 acc cs = None"
| "parse_elements (Suc n) acc cs =
     (case parse_value n cs of
        None \<Rightarrow> None
      | Some (v, r) \<Rightarrow>
          (case skip_ws r of
             [] \<Rightarrow> None
           | c # r' \<Rightarrow>
               if c = 0x2C then parse_elements n (acc @ [v]) r'
               else if c = 0x5D then Some (JArr (acc @ [v]), r')
               else None))"

definition JSON_parse :: "jstring \<Rightarrow> json option" where
  "JSON_parse text =
     (case parse_value (Suc (2 * length text)) text of
        None \<Rightarrow> None
      | Some (v, rest) \<Rightarrow> if skip_ws rest = [] then Some v else None)"

text \<open>
  Fuel: the parser spends one unit per nested value and one per member or element. An
  array spends two units on its first character, so twice the length of the text (and
  one) is what it is given; lemma \<open>JSON_parse_fuel\<close> below shows that more fuel never
  changes the answer, so no parse ends for want of fuel. An escape \<open>\uXXXX\<close> reads as
  the code unit it names, a surrogate like any other.
\<close>

definition hex_digit :: "nat \<Rightarrow> code_unit" where
  "hex_digit d = (if d < 10 then of_nat (0x30 + d) else of_nat (0x57 + d))"

definition UnicodeEscape :: "code_unit \<Rightarrow> jstring" where
  \<comment> \<open>\<open>\uXXXX\<close>, the four digits in lower case.\<close>
  "UnicodeEscape c =
     [0x5C, 0x75,
      hex_digit (unat c div 4096), hex_digit (unat c div 256 mod 16),
      hex_digit (unat c div 16 mod 16), hex_digit (unat c mod 16)]"

definition escape_code_unit :: "code_unit \<Rightarrow> jstring" where
  \<comment> \<open>QuoteJSONString on a code point that is one code unit: the two-character
      escapes, \<open>\uXXXX\<close> for the other control characters and for a surrogate (one that
      arrives here has no partner), everything else as it is.\<close>
  "escape_code_unit c =
     (if c = 0x08 then [0x5C, 0x62]
      else if c = 0x09 then [0x5C, 0x74]
      else if c = 0x0A then [0x5C, 0x6E]
      else if c = 0x0C then [0x5C, 0x66]
      else if c = 0x0D then [0x5C, 0x72]
      else if c = 0x22 then [0x5C, 0x22]
      else if c = 0x5C then [0x5C, 0x5C]
      else if c < 0x20 \<or> is_high_surrogate c \<or> is_low_surrogate c then UnicodeEscape c
      else [c])"

fun escape_string :: "jstring \<Rightarrow> jstring" where
  \<comment> \<open>QuoteJSONString walks the code points of the string: a surrogate pair is one
      code point and is written as it is.\<close>
  "escape_string [] = []"
| "escape_string [c] = escape_code_unit c"
| "escape_string (c # d # cs) =
     (if is_high_surrogate c \<and> is_low_surrogate d then c # d # escape_string cs
      else escape_code_unit c @ escape_string (d # cs))"

definition QuoteJSONString :: "jstring \<Rightarrow> jstring" where
  "QuoteJSONString s = [0x22] @ escape_string s @ [0x22]"

fun join :: "jstring \<Rightarrow> jstring list \<Rightarrow> jstring" where
  "join sep [] = []"
| "join sep [x] = x"
| "join sep (x # y # ys) = x @ sep @ join sep (y # ys)"

definition stringify_object :: "(jstring \<times> jstring option) list \<Rightarrow> jstring" where
  \<comment> \<open>\<open>JSON.stringify(obj, null, 2)\<close> for an object whose property values are already
      serialised: a property whose value is \<open>undefined\<close> is left out; the others stand
      one per line, indented by two spaces.\<close>
  "stringify_object props =
     (let lines = List.map_filter
                    (\<lambda>(k, v). map_option (\<lambda>s. QuoteJSONString k @ js '': '' @ s) v) props
      in if lines = [] then js ''{}''
         else js ''{'' @ [0x0A] @ js ''  '' @ join (js '','' @ [0x0A] @ js ''  '') lines
              @ [0x0A] @ js ''}'')"

definition object :: "(jstring \<times> json option) list \<Rightarrow> json" where
  \<comment> \<open>An object literal as JSON serialisation sends it: a property whose value is
      \<open>undefined\<close> does not appear.\<close>
  "object props = JObj (List.map_filter (\<lambda>(k, v). map_option (Pair k) v) props)"

section \<open>Completions: return, throw, and values outside their declared type\<close>

datatype exn =
    SystemError string  \<comment> \<open>a Node file-system error with its \<open>code\<close>\<close>
  | SyntaxError         \<comment> \<open>\<open>JSON.parse\<close> on text that is not JSON\<close>
  | TypeError           \<comment> \<open>a property read on \<open>null\<close>\<close>

definition error_code :: "exn \<Rightarrow> string option" where
  "error_code e = (case e of SystemError c \<Rightarrow> Some c | _ \<Rightarrow> None)"

text \<open>
  The source's casts (\<open>JSON.parse(data) as UserConfig\<close>) are not checked when the
  program runs. The model is typed as the interfaces are declared; a run that reaches a
  value which does not inhabit its declared type ends as \<open>Untyped\<close>, and the model
  says nothing more about it (no handler catches it).
\<close>

datatype 'a completion = Normal 'a | Throw exn | Untyped

section \<open>The world: home directory, files, and the log\<close>

datatype fs_op = Mkdir | ReadFile | WriteFile | Rename

datatype level = Info | Warn | Err

record world =
  homedir :: string                              \<comment> \<open>\<open>os.homedir()\<close>\<close>
  files :: "string \<rightharpoonup> jstring"                 \<comment> \<open>regular files: path to text\<close>
  dirs :: "string set"                           \<comment> \<open>directories\<close>
  faults :: "fs_op \<Rightarrow> string \<Rightarrow> string option"   \<comment> \<open>the error code the environment raises
                                                     for an operation on a path
                                                     (permissions, a full disk), if any\<close>
  logs :: "(level \<times> string) list"               \<comment> \<open>what \<open>logger.api\<close> has written\<close>

text \<open>
  Every asynchronous function of the source is a function from the world to its
  completion and the world it leaves. The file-system calls fail either for a reason
  the world shows (no such file, a directory in the way) or because the environment
  makes them fail (\<open>faults\<close>). The content of a file is the string that
  \<open>readFile(path, "utf-8")\<close> returns for it. File modes (\<open>0o700\<close>, \<open>0o600\<close>) are not
  part of the world.
\<close>

type_synonym 'a io = "world \<Rightarrow> 'a completion \<times> world"

definition return_io :: "'a \<Rightarrow> 'a io" where
  "return_io v w = (Normal v, w)"

definition throw_io :: "exn \<Rightarrow> 'a io" where
  "throw_io e w = (Throw e, w)"

definition lift_io :: "'a completion \<Rightarrow> 'a io" where
  "lift_io r w = (r, w)"

definition bind_io :: "'a io \<Rightarrow> ('a \<Rightarrow> 'b io) \<Rightarrow> 'b io" where
  \<comment> \<open>\<open>const v = await m; f(v)\<close>\<close>
  "bind_io m f w =
     (case m w of
        (Normal v, w') \<Rightarrow> f v w'
      | (Throw e, w') \<Rightarrow> (Throw e, w')
      | (Untyped, w') \<Rightarrow> (Untyped, w'))"

definition try_catch :: "'a io \<Rightarrow> (exn \<Rightarrow> 'a io) \<Rightarrow> 'a io" where
  \<comment> \<open>\<open>try { m } catch (error) { h(error) }\<close>\<close>
  "try_catch m h w =
     (case m w of
        (Throw e, w') \<Rightarrow> h e w'
      | r \<Rightarrow> r)"

definition logger_api :: "level \<Rightarrow> string \<Rightarrow> unit io" where
  \<comment> \<open>\<open>logger.api.info/warn/error(message, ...)\<close>: the message template is kept.\<close>
  "logger_api lvl msg w = (Normal (), w\<lparr>logs := logs w @ [(lvl, msg)]\<rparr>)"

definition fs_readFile :: "string \<Rightarrow> jstring io" where
  "fs_readFile p w =
     (case faults w ReadFile p of
        Some code \<Rightarrow> (Throw (SystemError code), w)
      | None \<Rightarrow>
          if p \<in> dirs w then (Throw (SystemError ''EISDIR''), w)
          else (case files w p of
                  None \<Rightarrow> (Throw (SystemError ''ENOENT''), w)
                | Some d \<Rightarrow> (Normal d, w)))"

definition fs_mkdir :: "string \<Rightarrow> unit io" where
  \<comment> \<open>\<open>fs.mkdir(p, { recursive: true })\<close>: an existing directory is no error.\<close>
  "fs_mkdir p w =
     (case faults w Mkdir p of
        Some code \<Rightarrow> (Throw (SystemError code), w)
      | None \<Rightarrow>
          if files w p \<noteq> None then (Throw (SystemError ''EEXIST''), w)
          else (Normal (), w\<lparr>dirs := insert p (dirs w)\<rparr>))"

definition fs_writeFile :: "string \<Rightarrow> jstring \<Rightarrow> unit io" where
  \<comment> \<open>\<open>fs.writeFile(p, d, ...)\<close> encodes the string as UTF-8, which has no place for a
      surrogate without its partner.\<close>
  "fs_writeFile p d w =
     (case faults w WriteFile p of
        Some code \<Rightarrow> (Throw (SystemError code), w)
      | None \<Rightarrow>
          if p \<in> dirs w then (Throw (SystemError ''EISDIR''), w)
          else (Normal (), w\<lparr>files := (files w)(p \<mapsto> toWellFormed d)\<rparr>))"

definition fs_rename :: "string \<Rightarrow> string \<Rightarrow> unit io" where
  \<comment> \<open>The faults of a rename are looked up under its destination.\<close>
  "fs_rename src dst w =
     (case faults w Rename dst of
        Some code \<Rightarrow> (Throw (SystemError code), w)
      | None \<Rightarrow>
          (case files w src of
             None \<Rightarrow> (Throw (SystemError ''ENOENT''), w)
           | Some d \<Rightarrow>
               if dst \<in> dirs w then (Throw (SystemError ''EISDIR''), w)
               else (Normal (), w\<lparr>files := (files w)(src := None, dst \<mapsto> d)\<rparr>)))"

definition JSON_parse_io :: "jstring \<Rightarrow> json io" where
  "JSON_parse_io text =
     (case JSON_parse text of None \<Rightarrow> throw_io SyntaxError | Some v \<Rightarrow> return_io v)"

definition lookup :: "json \<Rightarrow> jstring \<Rightarrow> json option" where
  \<comment> \<open>\<open>v.k\<close> for a value \<open>v\<close> other than \<open>null\<close> and the property names this program
      reads (none of them is an index or a property of a prototype): the member of an
      object, \<open>undefined\<close> on everything else.\<close>
  "lookup v k = (case v of JObj kvs \<Rightarrow> obj_get kvs k | _ \<Rightarrow> None)"

definition get_prop :: "json \<Rightarrow> jstring \<Rightarrow> json option io" where
  \<comment> \<open>\<open>v.k\<close> for a value of type \<open>any\<close>: a TypeError on \<open>null\<close>.\<close>
  "get_prop v k = (if v = JNull then throw_io TypeError else return_io (lookup v k))"

definition js_or_any :: "json option \<Rightarrow> json option \<Rightarrow> json option" where
  "js_or_any a b = (if truthy a then a else b)"

definition js_or_json :: "json option \<Rightarrow> json \<Rightarrow> json" where
  \<comment> \<open>\<open>a || d\<close> where \<open>d\<close> is a value: the result is never \<open>undefined\<close>.\<close>
  "js_or_json a d = (case a of None \<Rightarrow> d | Some v \<Rightarrow> if truthy (Some v) then v else d)"

section \<open>Configuration records\<close>

text \<open>
  \<open>SystemConfig\<close> and \<open>EffectiveConfig\<close> have the same three fields, optional in the
  first and required in the second; \<open>UserConfig\<close> adds \<open>useSystemDefaults\<close>.
\<close>

record 'a config_fields =
  apiKey :: 'a
  baseUrl :: 'a
  model :: 'a

type_synonym SystemConfig = "jstring option config_fields"

type_synonym EffectiveConfig = "jstring config_fields"

record UserConfig = "jstring option config_fields" +
  useSystemDefaults :: bool

text \<open>
  Modelled from the spec: \<open>SaveConfigRequest\<close> is declared in \<open>shared/types.ts\<close>,
  which is not among the sources. The spec gives the save request the shape of
  \<open>UserConfig\<close> (\<open>saveUserConfig(input: UserConfig)\<close>), and the handler reads exactly
  these four properties of it.
\<close>

type_synonym SaveConfigRequest = UserConfig

definition DEFAULT_CONFIG :: SystemConfig where
  "DEFAULT_CONFIG =
     \<lparr>apiKey = None,
      baseUrl = Some (js ''https://api.anthropic.com''),
      model = Some (js ''claude-sonnet-4-20250514'')\<rparr>"

definition as_opt_string :: "json option \<Rightarrow> jstring option completion" where
  \<comment> \<open>A property declared \<open>k?: string\<close>.\<close>
  "as_opt_string v =
     (case v of
        None \<Rightarrow> Normal None
      | Some (JStr s) \<Rightarrow> Normal (Some s)
      | Some _ \<Rightarrow> Untyped)"

definition as_UserConfig_object :: "(jstring \<times> json) list \<Rightarrow> UserConfig completion" where
  "as_UserConfig_object kvs =
     (case obj_get kvs (js ''useSystemDefaults'') of
        Some (JBool b) \<Rightarrow>
          (case (as_opt_string (obj_get kvs (js ''apiKey'')),
                 as_opt_string (obj_get kvs (js ''baseUrl'')),
                 as_opt_string (obj_get kvs (js ''model''))) of
             (Normal k, Normal u, Normal m) \<Rightarrow>
               Normal \<lparr>apiKey = k, baseUrl = u, model = m, useSystemDefaults = b\<rparr>
           | _ \<Rightarrow> Untyped)
      | _ \<Rightarrow> Untyped)"

definition as_UserConfig :: "json \<Rightarrow> UserConfig option completion" where
  \<comment> \<open>\<open>JSON.parse(data) as UserConfig\<close>, returned as \<open>UserConfig | null\<close>.\<close>
  "as_UserConfig v =
     (case v of
        JNull \<Rightarrow> Normal None
      | JObj kvs \<Rightarrow>
          (case as_UserConfig_object kvs of
             Normal config \<Rightarrow> Normal (Some config)
           | Throw e \<Rightarrow> Throw e
           | Untyped \<Rightarrow> Untyped)
      | _ \<Rightarrow> Untyped)"

definition as_SaveConfigRequest :: "json \<Rightarrow> SaveConfigRequest completion" where
  \<comment> \<open>\<open>(await c.req.json()) as SaveConfigRequest\<close>\<close>
  "as_SaveConfigRequest v =
     (case v of
        JObj kvs \<Rightarrow> as_UserConfig_object kvs
      | _ \<Rightarrow> Untyped)"

definition as_SystemConfig :: "json option \<Rightarrow> json option \<Rightarrow> json option \<Rightarrow> SystemConfig completion" where
  \<comment> \<open>The object literal \<open>{ apiKey: k, baseUrl: u, model: m }\<close> at type \<open>SystemConfig\<close>.\<close>
  "as_SystemConfig k u m =
     (case (as_opt_string k, as_opt_string u, as_opt_string m) of
        (Normal k', Normal u', Normal m') \<Rightarrow> Normal \<lparr>apiKey = k', baseUrl = u', model = m'\<rparr>
      | _ \<Rightarrow> Untyped)"

definition JSON_stringify_UserConfig :: "UserConfig \<Rightarrow> jstring" where
  \<comment> \<open>\<open>JSON.stringify(config, null, 2)\<close> at type \<open>UserConfig\<close>, the properties in the
      order in which \<open>handleSaveConfig\<close>, the only caller of \<open>saveUserConfig\<close>,
      writes them in its object literal.\<close>
  "JSON_stringify_UserConfig config =
     stringify_object
       [(js ''useSystemDefaults'', Some (if useSystemDefaults config then js ''true'' else js ''false'')),
        (js ''apiKey'', map_option QuoteJSONString (apiKey config)),
        (js ''baseUrl'', map_option QuoteJSONString (baseUrl config)),
        (js ''model'', map_option QuoteJSONString (model config))]"

section \<open>ConfigManager\<close>

definition path_join :: "string \<Rightarrow> string \<Rightarrow> string" where
  \<comment> \<open>\<open>path.join(a, b)\<close> for a normalised \<open>a\<close> and a single segment \<open>b\<close>.\<close>
  "path_join a b = a @ ''/'' @ b"

definition configDir :: "world \<Rightarrow> string" where
  "configDir w = path_join (homedir w) ''.claude-webui''"

definition userConfigPath :: "world \<Rightarrow> string" where
  "userConfigPath w = path_join (configDir w) ''config.json''"

definition systemConfigPath :: "world \<Rightarrow> string" where
  "systemConfigPath w = path_join (path_join (homedir w) ''.claude'') ''settings.json''"

definition ensureConfigDir :: "unit io" where
  "ensureConfigDir w =
     try_catch
       (fs_mkdir (configDir w))
       (\<lambda>error.
          bind_io (logger_api Err ''Failed to create config directory: {error}'') (\<lambda>_.
          throw_io error))
       w"

definition getUserConfig :: "UserConfig option io" where
  "getUserConfig w =
     try_catch
       (bind_io (fs_readFile (userConfigPath w)) (\<lambda>data.
        bind_io (JSON_parse_io data) (\<lambda>parsed.
        bind_io (lift_io (as_UserConfig parsed)) (\<lambda>config.
        bind_io (logger_api Info ''Loaded user config from {path}'') (\<lambda>_.
        return_io config)))))
       (\<lambda>error.
          if error_code error = Some ''ENOENT'' then
            bind_io (logger_api Info ''No user config found'') (\<lambda>_.
            return_io None)
          else
            bind_io (logger_api Warn ''Failed to read user config: {error}'') (\<lambda>_.
            return_io None))
       w"

definition saveUserConfig :: "UserConfig \<Rightarrow> unit io" where
  "saveUserConfig config w =
     try_catch
       (bind_io ensureConfigDir (\<lambda>_.
        let tempPath = userConfigPath w @ ''.tmp'' in
        bind_io (fs_writeFile tempPath (JSON_stringify_UserConfig config)) (\<lambda>_.
        bind_io (fs_rename tempPath (userConfigPath w)) (\<lambda>_.
        logger_api Info ''Saved user config to {path}''))))
       (\<lambda>error.
          bind_io (logger_api Err ''Failed to save user config: {error}'') (\<lambda>_.
          throw_io error))
       w"

definition getSystemConfig :: "SystemConfig io" where
  "getSystemConfig w =
     try_catch
       (bind_io (fs_readFile (systemConfigPath w)) (\<lambda>data.
        bind_io (JSON_parse_io data) (\<lambda>settings.
        bind_io (get_prop settings (js ''env'')) (\<lambda>settings_env.
        let env = js_or_json settings_env (JObj []) in
        bind_io (get_prop env (js ''ANTHROPIC_AUTH_TOKEN'')) (\<lambda>auth_token.
        bind_io (get_prop env (js ''ANTHROPIC_API_KEY'')) (\<lambda>api_key.
        bind_io (get_prop env (js ''ANTHROPIC_BASE_URL'')) (\<lambda>base_url.
        bind_io (get_prop env (js ''ANTHROPIC_MODEL'')) (\<lambda>anthropic_model.
        bind_io (get_prop env (js ''ANTHROPIC_DEFAULT_SONNET_MODEL'')) (\<lambda>sonnet_model.
        bind_io (lift_io (as_SystemConfig
                            (js_or_any auth_token api_key)
                            base_url
                            (js_or_any anthropic_model sonnet_model))) (\<lambda>config.
        bind_io (logger_api Info ''Loaded system config from {path}'') (\<lambda>_.
        return_io config)))))))))))
       (\<lambda>error.
          if error_code error = Some ''ENOENT'' then
            bind_io (logger_api Warn ''No system config found at {path}'') (\<lambda>_.
            return_io \<lparr>apiKey = None, baseUrl = None, model = None\<rparr>)
          else
            bind_io (logger_api Warn ''Failed to read system config: {error}'') (\<lambda>_.
            return_io \<lparr>apiKey = None, baseUrl = None, model = None\<rparr>))
       w"

definition getEffectiveConfig :: "EffectiveConfig io" where
  \<comment> \<open>\<open>DEFAULT_CONFIG.baseUrl!\<close>: the constant has the property, \<open>the\<close> reads it.\<close>
  "getEffectiveConfig =
     bind_io getUserConfig (\<lambda>userConfig.
     bind_io getSystemConfig (\<lambda>systemConfig.
       if (case userConfig of None \<Rightarrow> False | Some uc \<Rightarrow> useSystemDefaults uc) then
         return_io
           \<lparr>apiKey = js_or_str (apiKey systemConfig) (js ''''),
            baseUrl = js_or_str (baseUrl systemConfig) (the (baseUrl DEFAULT_CONFIG)),
            model = js_or_str (model systemConfig) (the (model DEFAULT_CONFIG))\<rparr>
       else
         (case userConfig of
            Some uc \<Rightarrow>
              if \<not> useSystemDefaults uc then
                return_io
                  \<lparr>apiKey = js_or_str (js_or (apiKey uc) (apiKey systemConfig)) (js ''''),
                   baseUrl = js_or_str (baseUrl uc) (the (baseUrl DEFAULT_CONFIG)),
                   model = js_or_str (model uc) (the (model DEFAULT_CONFIG))\<rparr>
              else
                return_io
                  \<lparr>apiKey = js_or_str (apiKey systemConfig) (js ''''),
                   baseUrl = js_or_str (baseUrl systemConfig) (the (baseUrl DEFAULT_CONFIG)),
                   model = js_or_str (model systemConfig) (the (model DEFAULT_CONFIG))\<rparr>
          | None \<Rightarrow>
              return_io
                \<lparr>apiKey = js_or_str (apiKey systemConfig) (js ''''),
                 baseUrl = js_or_str (baseUrl systemConfig) (the (baseUrl DEFAULT_CONFIG)),
                 model = js_or_str (model systemConfig) (the (model DEFAULT_CONFIG))\<rparr>)))"

definition blank :: "jstring option \<Rightarrow> bool" where
  \<comment> \<open>\<open>!apiKey || apiKey.trim() === ""\<close>\<close>
  "blank v = (\<not> truthy_str v \<or> (case v of None \<Rightarrow> True | Some s \<Rightarrow> js_trim s = []))"

definition testConfig :: "SystemConfig \<Rightarrow> bool" where
  "testConfig config = (if blank (apiKey config) then False else True)"

definition maskApiKey :: "jstring option \<Rightarrow> jstring option" where
  "maskApiKey apiKey' =
     (if \<not> truthy_str apiKey' then None
      else case apiKey' of
        None \<Rightarrow> None
      | Some k \<Rightarrow>
          if length k \<le> 10 then Some (js ''***'')
          else
            (let start = substring k 0 7;
                 end' = substring_from k (length k - 3)
             in Some (start @ js ''...'' @ end')))"


section \<open>Request handlers\<close>

record Context =
  req_body :: jstring   \<comment> \<open>the text of the request body\<close>

record Response =
  status :: nat
  body :: json

definition c_req_json :: "Context \<Rightarrow> json io" where
  \<comment> \<open>\<open>await c.req.json()\<close>\<close>
  "c_req_json c = JSON_parse_io (req_body c)"

definition c_json :: "json \<Rightarrow> nat \<Rightarrow> Response" where
  \<comment> \<open>\<open>c.json(obj, status)\<close>; the status is 200 when the source gives none.\<close>
  "c_json obj st = \<lparr>status = st, body = obj\<rparr>"

definition UserConfigResponse :: "bool \<Rightarrow> jstring option \<Rightarrow> jstring option \<Rightarrow> jstring option \<Rightarrow> json" where
  \<comment> \<open>The object literal \<open>{ useSystemDefaults, apiKey, baseUrl, model }\<close>.\<close>
  "UserConfigResponse d k u m =
     object [(js ''useSystemDefaults'', Some (JBool d)),
             (js ''apiKey'', map_option JStr k),
             (js ''baseUrl'', map_option JStr u),
             (js ''model'', map_option JStr m)]"

definition SystemConfigResponse :: "bool \<Rightarrow> jstring option \<Rightarrow> jstring option \<Rightarrow> json" where
  \<comment> \<open>The object literal \<open>{ hasSystemConfig, baseUrl, model }\<close>.\<close>
  "SystemConfigResponse h u m =
     object [(js ''hasSystemConfig'', Some (JBool h)),
             (js ''baseUrl'', map_option JStr u),
             (js ''model'', map_option JStr m)]"

definition error_response :: "jstring \<Rightarrow> json" where
  \<comment> \<open>The object literal \<open>{ error: message }\<close>.\<close>
  "error_response msg = object [(js ''error'', Some (JStr msg))]"

definition handleGetConfig :: "Context \<Rightarrow> Response io" where
  "handleGetConfig c =
     try_catch
       (bind_io getUserConfig (\<lambda>userConfig.
        bind_io getSystemConfig (\<lambda>systemConfig.
          case userConfig of
            None \<Rightarrow>
              return_io (c_json (UserConfigResponse True
                                   (maskApiKey (apiKey systemConfig))
                                   (baseUrl systemConfig)
                                   (model systemConfig)) 200)
          | Some uc \<Rightarrow>
              return_io (c_json (UserConfigResponse (useSystemDefaults uc)
                                   (maskApiKey (apiKey uc))
                                   (baseUrl uc)
                                   (model uc)) 200))))
       (\<lambda>error.
          bind_io (logger_api Err ''Failed to get config: {error}'') (\<lambda>_.
          return_io (c_json (error_response (js ''Failed to get configuration'')) 500)))"

definition handleSaveConfig :: "Context \<Rightarrow> Response io" where
  "handleSaveConfig c =
     try_catch
       (bind_io (c_req_json c) (\<lambda>parsed.
        bind_io (lift_io (as_SaveConfigRequest parsed)) (\<lambda>body.
          if \<not> useSystemDefaults body \<and> blank (apiKey body) then
            return_io (c_json (error_response (js ''API key is required'')) 400)
          else
            (let userConfig =
                   \<lparr>apiKey = apiKey body, baseUrl = baseUrl body, model = model body,
                    useSystemDefaults = useSystemDefaults body\<rparr>
             in bind_io (saveUserConfig userConfig) (\<lambda>_.
                return_io (c_json (UserConfigResponse (useSystemDefaults userConfig)
                                     (maskApiKey (apiKey userConfig))
                                     (baseUrl userConfig)
                                     (model userConfig)) 200))))))
       (\<lambda>error.
          bind_io (logger_api Err ''Failed to save config: {error}'') (\<lambda>_.
          return_io (c_json (error_response (js ''Failed to save configuration'')) 500)))"

definition handleGetSystemConfig :: "Context \<Rightarrow> Response io" where
  "handleGetSystemConfig c =
     try_catch
       (bind_io getSystemConfig (\<lambda>systemConfig.
          return_io (c_json (SystemConfigResponse
                               (truthy_str (apiKey systemConfig))
                               (baseUrl systemConfig)
                               (model systemConfig)) 200)))
       (\<lambda>error.
          bind_io (logger_api Err ''Failed to get system config: {error}'') (\<lambda>_.
          return_io (c_json (error_response (js ''Failed to get system configuration'')) 500)))"

section \<open>Example worlds\<close>

definition example_world :: "jstring option \<Rightarrow> jstring option \<Rightarrow> world" where
  \<comment> \<open>A home directory \<open>/home/u\<close> that holds at most the user's configuration file and
      the system settings file, with the given contents.\<close>
  "example_world user_file system_file =
     \<lparr>homedir = ''/home/u'',
      files = (\<lambda>p. if p = ''/home/u/.claude-webui/config.json'' then user_file
                   else if p = ''/home/u/.claude/settings.json'' then system_file
                   else None),
      dirs = {},
      faults = (\<lambda>_ _. None),
      logs = []\<rparr>"

section \<open>Auxiliary definitions for the proofs\<close>

text \<open>
  The text \<open>JSON.stringify\<close> writes for a list of members with scalar values, used to
  follow the parser over it; and the condition on the world under which every step of
  \<open>saveUserConfig\<close> goes through.
\<close>

definition render_value :: "json \<Rightarrow> jstring" where
  "render_value v =
     (case v of
        JBool b \<Rightarrow> if b then js ''true'' else js ''false''
      | JStr s \<Rightarrow> QuoteJSONString s
      | _ \<Rightarrow> [])"

definition scalar :: "json \<Rightarrow> bool" where
  "scalar v = (case v of JBool b \<Rightarrow> True | JStr s \<Rightarrow> True | _ \<Rightarrow> False)"

fun render_members :: "(jstring \<times> json) list \<Rightarrow> jstring" where
  "render_members [] = []"
| "render_members [(k, v)] =
     QuoteJSONString k @ js '': '' @ render_value v @ [0x0A] @ js ''}''"
| "render_members ((k, v) # m # ms) =
     QuoteJSONString k @ js '': '' @ render_value v @ js '','' @ [0x0A] @ js ''  ''
       @ render_members (m # ms)"

definition UserConfig_members :: "UserConfig \<Rightarrow> (jstring \<times> json) list" where
  "UserConfig_members config =
     [(js ''useSystemDefaults'', JBool (useSystemDefaults config))]
     @ (case apiKey config of None \<Rightarrow> [] | Some k \<Rightarrow> [(js ''apiKey'', JStr k)])
     @ (case baseUrl config of None \<Rightarrow> [] | Some u \<Rightarrow> [(js ''baseUrl'', JStr u)])
     @ (case model config of None \<Rightarrow> [] | Some m \<Rightarrow> [(js ''model'', JStr m)])"

definition save_ok :: "world \<Rightarrow> bool" where
  "save_ok w =
     (faults w Mkdir (configDir w) = None \<and> files w (configDir w) = None
      \<and> faults w WriteFile (userConfigPath w @ ''.tmp'') = None
      \<and> userConfigPath w @ ''.tmp'' \<notin> insert (configDir w) (dirs w)
      \<and> faults w Rename (userConfigPath w) = None
      \<and> userConfigPath w \<notin> insert (configDir w) (dirs w))"

definition is_surrogate :: "code_unit \<Rightarrow> bool" where
  "is_surrogate c = (is_high_surrogate c \<or> is_low_surrogate c)"

section \<open>Code units\<close>

lemma js_table:
  \<open>js ''"/bfnrtu'' = [0x22, 0x2F, 0x62, 0x66, 0x6E, 0x72, 0x74, 0x75]\<close>
  "js ''{}[]:,-+.eE'' = [0x7B, 0x7D, 0x5B, 0x5D, 0x3A, 0x2C, 0x2D, 0x2B, 0x2E, 0x65, 0x45]"
  "js ''09afAF'' = [0x30, 0x39, 0x61, 0x66, 0x41, 0x46]"
  by (simp_all add: js_def)

lemma unat_of_nat_small: "n < 65536 \<Longrightarrow> unat (of_nat n :: code_unit) = n"
  by (simp add: unat_of_nat)

lemma unat_of_char: "unat (of_char x :: code_unit) = (of_char x :: nat)"
proof -
  have e: "(of_char x :: code_unit) = of_nat (of_char x)" by (simp only: of_nat_of_char)
  have "(of_char x :: nat) mod 256 < 256" by (rule mod_less_divisor) simp
  then have "(of_char x :: nat) < 256" by (simp only: of_char_mod_256)
  then have "(of_char x :: nat) < 65536" by (rule less_trans) simp
  then show ?thesis unfolding e by (rule unat_of_nat_small)
qed

lemma js_inject [simp]: "(js a = js b) = (a = b)"
proof -
  have "inj (of_char :: char \<Rightarrow> code_unit)"
  proof (rule injI)
    fix x y :: char
    assume "(of_char x :: code_unit) = of_char y"
    then have "unat (of_char x :: code_unit) = unat (of_char y :: code_unit)" by simp
    then show "x = y" by (simp add: unat_of_char)
  qed
  then show ?thesis by (simp add: js_def inj_map_eq_map)
qed

lemma js_Nil [simp]: "js [] = []" "(js s = []) = (s = [])" "([] = js s) = (s = [])"
  by (auto simp add: js_def)

lemma length_js [simp]: "length (js s) = length s"
  by (simp add: js_def)

lemma unat_lt: "unat (c :: code_unit) < 65536"
  using unsigned_less [of c, where ?'a = nat] by simp

section \<open>Properties of masking\<close>

lemma substring_prefix: "substring s 0 n = take n s"
  by (simp add: substring_def Let_def min_def)

lemma substring_from_drop: "substring_from s n = drop n s"
  by (simp add: substring_from_def substring_def Let_def min_def max_def)

text \<open>
  C3 as stated fails: the empty string is a string of length at most 10, and for it the
  guard \<open>if (!apiKey) return undefined\<close> answers first, so the result is absent and
  not the placeholder.
\<close>

theorem maskApiKey_empty_counterexample:
  "length (js '''') \<le> 10
   \<and> maskApiKey (Some (js '''')) = None
   \<and> maskApiKey (Some (js '''')) \<noteq> Some (js ''***'')"
  by (simp add: maskApiKey_def truthy_str_def)

text \<open>
  C3, amended: \<open>maskApiKey\<close> maps an absent input and the empty string to an absent
  output; every non-empty string of length at most 10 to the fixed placeholder, which
  is the same for all of them (so it shows neither the length nor a character); and
  every string longer than 10 to its first 7 characters, the ellipsis marker and its last
  3 characters.
\<close>

theorem maskApiKey_cases:
  "maskApiKey None = None \<and> maskApiKey (Some []) = None
   \<and> (k \<noteq> [] \<and> length k \<le> 10 \<longrightarrow> maskApiKey (Some k) = Some (js ''***''))
   \<and> (k \<noteq> [] \<and> length k \<le> 10 \<and> k' \<noteq> [] \<and> length k' \<le> 10
        \<longrightarrow> maskApiKey (Some k) = maskApiKey (Some k'))
   \<and> (10 < length k \<longrightarrow>
        maskApiKey (Some k) = Some (take 7 k @ js ''...'' @ drop (length k - 3) k)
        \<and> length (drop (length k - 3) k) = 3)"
  by (auto simp add: maskApiKey_def truthy_str_def substring_prefix substring_from_drop)

theorem maskApiKey_cases_witness:
  "maskApiKey (Some (js ''short'')) = Some (js ''***'')
   \<and> maskApiKey (Some (js ''short'')) = maskApiKey (Some (js ''sk-ant-123''))
   \<and> maskApiKey (Some (js ''sk-ant-1234567890'')) = Some (js ''sk-ant-...890'')"
  using maskApiKey_cases [of "js ''short''" "js ''sk-ant-123''"]
    maskApiKey_cases [of "js ''sk-ant-1234567890''" "js ''x''"]
  by (auto simp add: js_def)

section \<open>Sequencing and the two loaders\<close>

lemma bind_io_Normal: "m w = (Normal v, w1) \<Longrightarrow> bind_io m f w = f v w1"
  by (simp add: bind_io_def)

lemma bind_io_Throw: "m w = (Throw e, w1) \<Longrightarrow> bind_io m f w = (Throw e, w1)"
  by (simp add: bind_io_def)

lemma bind_io_Untyped: "m w = (Untyped, w1) \<Longrightarrow> bind_io m f w = (Untyped, w1)"
  by (simp add: bind_io_def)

lemma bind_io_NormalD:
  "bind_io m f w = (Normal r, w') \<Longrightarrow> \<exists>v w1. m w = (Normal v, w1) \<and> f v w1 = (Normal r, w')"
  by (cases "m w") (auto simp add: bind_io_def split: completion.splits)

lemma js_or_str_nonempty: "d \<noteq> [] \<Longrightarrow> js_or_str a d \<noteq> []"
  by (simp add: js_or_str_def split: option.splits)

lemma js_or_str_cases:
  "d \<noteq> [] \<Longrightarrow> js_or_str a d = (case a of Some s \<Rightarrow> if s \<noteq> [] then s else d | None \<Rightarrow> d)"
  by (simp add: js_or_str_def split: option.splits)

lemma js_or_str_empty: "js_or_str a [] = (case a of Some s \<Rightarrow> s | None \<Rightarrow> [])"
  by (simp add: js_or_str_def split: option.splits)

lemma DEFAULT_CONFIG_simps:
  "the (baseUrl DEFAULT_CONFIG) = js ''https://api.anthropic.com''"
  "the (model DEFAULT_CONFIG) = js ''claude-sonnet-4-20250514''"
  by (simp_all add: DEFAULT_CONFIG_def)

lemma fs_readFile_ok:
  "faults w ReadFile p = None \<Longrightarrow> p \<notin> dirs w \<Longrightarrow> files w p = Some text
   \<Longrightarrow> fs_readFile p w = (Normal text, w)"
  by (simp add: fs_readFile_def)

lemma fs_readFile_missing:
  "faults w ReadFile p = None \<Longrightarrow> p \<notin> dirs w \<Longrightarrow> files w p = None
   \<Longrightarrow> fs_readFile p w = (Throw (SystemError ''ENOENT''), w)"
  by (simp add: fs_readFile_def)

lemma fs_readFile_result:
  "(\<exists>text. fs_readFile p w = (Normal text, w)) \<or> (\<exists>code. fs_readFile p w = (Throw (SystemError code), w))"
  by (simp add: fs_readFile_def split: option.splits)

lemma getUserConfig_loaded:
  assumes "fs_readFile (userConfigPath w) w = (Normal text, w)"
    and "JSON_parse text = Some v" and "as_UserConfig v = Normal config"
  shows "getUserConfig w =
    (Normal config, w\<lparr>logs := logs w @ [(Info, ''Loaded user config from {path}'')]\<rparr>)"
  using assms
  by (simp add: getUserConfig_def try_catch_def bind_io_def JSON_parse_io_def return_io_def
      lift_io_def logger_api_def)

lemma getUserConfig_untyped:
  assumes "fs_readFile (userConfigPath w) w = (Normal text, w)"
    and "JSON_parse text = Some v" and "as_UserConfig v = Untyped"
  shows "getUserConfig w = (Untyped, w)"
  using assms
  by (simp add: getUserConfig_def try_catch_def bind_io_def JSON_parse_io_def return_io_def
      lift_io_def logger_api_def)

lemma getUserConfig_missing:
  assumes "fs_readFile (userConfigPath w) w = (Throw (SystemError ''ENOENT''), w)"
  shows "getUserConfig w = (Normal None, w\<lparr>logs := logs w @ [(Info, ''No user config found'')]\<rparr>)"
  using assms
  by (simp add: getUserConfig_def try_catch_def bind_io_def return_io_def error_code_def logger_api_def)

lemma getUserConfig_unreadable:
  assumes "fs_readFile (userConfigPath w) w = (Throw (SystemError code), w)" and "code \<noteq> ''ENOENT''"
  shows "getUserConfig w =
    (Normal None, w\<lparr>logs := logs w @ [(Warn, ''Failed to read user config: {error}'')]\<rparr>)"
  using assms
  by (simp add: getUserConfig_def try_catch_def bind_io_def return_io_def error_code_def logger_api_def)

lemma getUserConfig_corrupt:
  assumes "fs_readFile (userConfigPath w) w = (Normal text, w)" and "JSON_parse text = None"
  shows "getUserConfig w =
    (Normal None, w\<lparr>logs := logs w @ [(Warn, ''Failed to read user config: {error}'')]\<rparr>)"
  using assms
  by (simp add: getUserConfig_def try_catch_def bind_io_def JSON_parse_io_def return_io_def
      throw_io_def error_code_def logger_api_def)

lemma as_UserConfig_no_throw: "as_UserConfig v \<noteq> Throw e"
  by (simp add: as_UserConfig_def as_UserConfig_object_def as_opt_string_def
      split: json.splits option.splits completion.splits)

lemma getUserConfig_no_throw: "fst (getUserConfig w) \<noteq> Throw e"
proof -
  consider data where "fs_readFile (userConfigPath w) w = (Normal data, w)"
    | code where "fs_readFile (userConfigPath w) w = (Throw (SystemError code), w)"
    using fs_readFile_result by blast
  then show ?thesis
  proof cases
    case 1
    show ?thesis
    proof (cases "JSON_parse data")
      case None
      with 1 show ?thesis by (simp add: getUserConfig_corrupt)
    next
      case (Some v)
      show ?thesis
      proof (cases "as_UserConfig v")
        case (Normal config)
        with 1 Some show ?thesis by (simp add: getUserConfig_loaded)
      next
        case (Throw e')
        then show ?thesis by (simp add: as_UserConfig_no_throw)
      next
        case Untyped
        with 1 Some show ?thesis by (simp add: getUserConfig_untyped)
      qed
    qed
  next
    case 2
    then show ?thesis
      by (cases "code = ''ENOENT''") (simp_all add: getUserConfig_missing getUserConfig_unreadable)
  qed
qed

lemma js_or_json_not_null: "d \<noteq> JNull \<Longrightarrow> js_or_json a d \<noteq> JNull"
  by (auto simp add: js_or_json_def split: option.splits)

lemma get_prop_env:
  "get_prop (js_or_json a (JObj [])) k w = (Normal (lookup (js_or_json a (JObj [])) k), w)"
  by (simp add: get_prop_def js_or_json_not_null return_io_def)

lemma getSystemConfig_missing:
  assumes "fs_readFile (systemConfigPath w) w = (Throw (SystemError ''ENOENT''), w)"
  shows "getSystemConfig w =
    (Normal \<lparr>apiKey = None, baseUrl = None, model = None\<rparr>,
     w\<lparr>logs := logs w @ [(Warn, ''No system config found at {path}'')]\<rparr>)"
  using assms
  by (simp add: getSystemConfig_def try_catch_def bind_io_def return_io_def error_code_def logger_api_def)

lemma getSystemConfig_unreadable:
  assumes "fs_readFile (systemConfigPath w) w = (Throw (SystemError code), w)" and "code \<noteq> ''ENOENT''"
  shows "getSystemConfig w =
    (Normal \<lparr>apiKey = None, baseUrl = None, model = None\<rparr>,
     w\<lparr>logs := logs w @ [(Warn, ''Failed to read system config: {error}'')]\<rparr>)"
  using assms
  by (simp add: getSystemConfig_def try_catch_def bind_io_def return_io_def error_code_def logger_api_def)

lemma getSystemConfig_corrupt:
  assumes "fs_readFile (systemConfigPath w) w = (Normal data, w)" and "JSON_parse data = None"
  shows "getSystemConfig w =
    (Normal \<lparr>apiKey = None, baseUrl = None, model = None\<rparr>,
     w\<lparr>logs := logs w @ [(Warn, ''Failed to read system config: {error}'')]\<rparr>)"
  using assms
  by (simp add: getSystemConfig_def try_catch_def bind_io_def JSON_parse_io_def return_io_def
      throw_io_def error_code_def logger_api_def)

lemma getSystemConfig_null:
  assumes "fs_readFile (systemConfigPath w) w = (Normal data, w)" and "JSON_parse data = Some JNull"
  shows "getSystemConfig w =
    (Normal \<lparr>apiKey = None, baseUrl = None, model = None\<rparr>,
     w\<lparr>logs := logs w @ [(Warn, ''Failed to read system config: {error}'')]\<rparr>)"
  using assms
  by (simp add: getSystemConfig_def try_catch_def bind_io_def JSON_parse_io_def return_io_def
      throw_io_def error_code_def logger_api_def get_prop_def)

lemma getSystemConfig_parsed:
  assumes "fs_readFile (systemConfigPath w) w = (Normal data, w)"
    and "JSON_parse data = Some settings" and "settings \<noteq> JNull"
    and "env = js_or_json (lookup settings (js ''env'')) (JObj [])"
  shows "getSystemConfig w =
    (case as_SystemConfig
            (js_or_any (lookup env (js ''ANTHROPIC_AUTH_TOKEN'')) (lookup env (js ''ANTHROPIC_API_KEY'')))
            (lookup env (js ''ANTHROPIC_BASE_URL''))
            (js_or_any (lookup env (js ''ANTHROPIC_MODEL'')) (lookup env (js ''ANTHROPIC_DEFAULT_SONNET_MODEL''))) of
       Normal config \<Rightarrow>
         (Normal config, w\<lparr>logs := logs w @ [(Info, ''Loaded system config from {path}'')]\<rparr>)
     | Throw e \<Rightarrow> (Untyped, w)
     | Untyped \<Rightarrow> (Untyped, w))"
proof -
  have no_throw: "as_SystemConfig a b c \<noteq> Throw e" for a b c e
    by (simp add: as_SystemConfig_def as_opt_string_def split: option.splits json.splits)
  have settings: "get_prop settings (js ''env'') w = (Normal (lookup settings (js ''env'')), w)"
    using assms(3) by (simp add: get_prop_def return_io_def)
  show ?thesis
    unfolding getSystemConfig_def assms(4)
    by (simp add: Let_def try_catch_def bind_io_def assms(1,2) JSON_parse_io_def return_io_def settings
        get_prop_env lift_io_def logger_api_def no_throw split: completion.splits)
qed

lemma getSystemConfig_no_keys:
  assumes "fs_readFile (systemConfigPath w) w = (Normal data, w)"
    and "JSON_parse data = Some settings"
    and "\<forall>k \<in> {js ''ANTHROPIC_AUTH_TOKEN'', js ''ANTHROPIC_API_KEY'', js ''ANTHROPIC_BASE_URL'',
               js ''ANTHROPIC_MODEL'', js ''ANTHROPIC_DEFAULT_SONNET_MODEL''}.
            lookup (js_or_json (lookup settings (js ''env'')) (JObj [])) k = None"
  shows "fst (getSystemConfig w) = Normal \<lparr>apiKey = None, baseUrl = None, model = None\<rparr>"
proof (cases "settings = JNull")
  case True
  with assms(1,2) show ?thesis by (simp add: getSystemConfig_null)
next
  case False
  show ?thesis
    using assms(3)
    by (simp add: getSystemConfig_parsed [OF assms(1,2) False refl] js_or_any_def
        as_SystemConfig_def as_opt_string_def)
qed

lemma getSystemConfig_no_throw: "fst (getSystemConfig w) \<noteq> Throw e"
proof -
  have r: "(\<exists>data. fs_readFile (systemConfigPath w) w = (Normal data, w))
           \<or> (\<exists>code. fs_readFile (systemConfigPath w) w = (Throw (SystemError code), w))"
    by (simp add: fs_readFile_def split: option.splits)
  then consider data where "fs_readFile (systemConfigPath w) w = (Normal data, w)"
    | code where "fs_readFile (systemConfigPath w) w = (Throw (SystemError code), w)"
    by blast
  then show ?thesis
  proof cases
    case 1
    show ?thesis
    proof (cases "JSON_parse data")
      case None
      with 1 show ?thesis by (simp add: getSystemConfig_corrupt)
    next
      case (Some settings)
      show ?thesis
      proof (cases "settings = JNull")
        case True
        with 1 Some show ?thesis by (simp add: getSystemConfig_null)
      next
        case False
        show ?thesis
          by (simp add: getSystemConfig_parsed [OF 1 Some False refl] split: completion.splits)
      qed
    qed
  next
    case 2
    then show ?thesis
      by (cases "code = ''ENOENT''") (simp_all add: getSystemConfig_missing getSystemConfig_unreadable)
  qed
qed

section \<open>Resolution of the effective configuration\<close>

lemma getEffectiveConfig_custom:
  assumes "getUserConfig w = (Normal (Some uc), w1)"
    and "getSystemConfig w1 = (Normal sc, w2)"
    and "\<not> useSystemDefaults uc"
  shows "getEffectiveConfig w =
    (Normal \<lparr>apiKey = (case apiKey uc of
                          Some k \<Rightarrow> if k \<noteq> [] then k else (case apiKey sc of Some k' \<Rightarrow> k' | None \<Rightarrow> [])
                        | None \<Rightarrow> (case apiKey sc of Some k' \<Rightarrow> k' | None \<Rightarrow> [])),
             baseUrl = (case baseUrl uc of
                          Some u \<Rightarrow> if u \<noteq> [] then u else js ''https://api.anthropic.com''
                        | None \<Rightarrow> js ''https://api.anthropic.com''),
             model = (case model uc of
                          Some m \<Rightarrow> if m \<noteq> [] then m else js ''claude-sonnet-4-20250514''
                        | None \<Rightarrow> js ''claude-sonnet-4-20250514'')\<rparr>, w2)"
proof -
  have k: "js_or_str (js_or (apiKey uc) (apiKey sc)) [] =
      (case apiKey uc of
         Some k \<Rightarrow> if k \<noteq> [] then k else (case apiKey sc of Some k' \<Rightarrow> k' | None \<Rightarrow> [])
       | None \<Rightarrow> (case apiKey sc of Some k' \<Rightarrow> k' | None \<Rightarrow> []))"
    by (simp add: js_or_str_def js_or_def truthy_str_def split: option.splits)
  show ?thesis
    unfolding getEffectiveConfig_def
    by (simp add: bind_io_def assms k js_or_str_cases DEFAULT_CONFIG_simps return_io_def)
qed

lemma getEffectiveConfig_system:
  assumes "getUserConfig w = (Normal userConfig, w1)"
    and "getSystemConfig w1 = (Normal sc, w2)"
    and "case userConfig of None \<Rightarrow> True | Some uc \<Rightarrow> useSystemDefaults uc"
  shows "getEffectiveConfig w =
    (Normal \<lparr>apiKey = (case apiKey sc of Some k \<Rightarrow> k | None \<Rightarrow> []),
             baseUrl = (case baseUrl sc of
                          Some u \<Rightarrow> if u \<noteq> [] then u else js ''https://api.anthropic.com''
                        | None \<Rightarrow> js ''https://api.anthropic.com''),
             model = (case model sc of
                          Some m \<Rightarrow> if m \<noteq> [] then m else js ''claude-sonnet-4-20250514''
                        | None \<Rightarrow> js ''claude-sonnet-4-20250514'')\<rparr>, w2)"
proof (cases userConfig)
  case None
  then show ?thesis
    unfolding getEffectiveConfig_def
    using assms(1,2)
    by (simp add: bind_io_def js_or_str_empty js_or_str_cases DEFAULT_CONFIG_simps return_io_def)
next
  case (Some uc)
  with assms(3) have "useSystemDefaults uc" by simp
  with Some show ?thesis
    unfolding getEffectiveConfig_def
    using assms(1,2)
    by (simp add: bind_io_def js_or_str_empty js_or_str_cases DEFAULT_CONFIG_simps return_io_def)
qed

lemma example_world_paths:
  "userConfigPath (example_world u s) = ''/home/u/.claude-webui/config.json''"
  "systemConfigPath (example_world u s) = ''/home/u/.claude/settings.json''"
  "userConfigPath (example_world u s\<lparr>logs := l\<rparr>) = ''/home/u/.claude-webui/config.json''"
  "systemConfigPath (example_world u s\<lparr>logs := l\<rparr>) = ''/home/u/.claude/settings.json''"
  by (simp_all add: userConfigPath_def systemConfigPath_def configDir_def path_join_def
      example_world_def)

lemma example_world_read_user:
  "fs_readFile ''/home/u/.claude-webui/config.json'' (example_world u s) =
     (case u of None \<Rightarrow> Throw (SystemError ''ENOENT'') | Some d \<Rightarrow> Normal d, example_world u s)"
  by (simp add: fs_readFile_def example_world_def split: option.splits)

lemma example_world_read_system:
  "fs_readFile ''/home/u/.claude/settings.json'' (example_world u s\<lparr>logs := l\<rparr>) =
     (case s of None \<Rightarrow> Throw (SystemError ''ENOENT'') | Some d \<Rightarrow> Normal d,
      example_world u s\<lparr>logs := l\<rparr>)"
  by (simp add: fs_readFile_def example_world_def split: option.splits)

lemma example_world_user:
  assumes "JSON_parse d = Some v" and "as_UserConfig v = Normal config"
  shows "getUserConfig (example_world (Some d) s) =
    (Normal config, example_world (Some d) s\<lparr>logs := [(Info, ''Loaded user config from {path}'')]\<rparr>)"
proof -
  have "getUserConfig (example_world (Some d) s) =
    (Normal config, example_world (Some d) s
       \<lparr>logs := logs (example_world (Some d) s) @ [(Info, ''Loaded user config from {path}'')]\<rparr>)"
    by (rule getUserConfig_loaded [OF _ assms]) (simp add: example_world_paths example_world_read_user)
  then show ?thesis by (simp add: example_world_def)
qed

lemma example_world_no_user:
  "getUserConfig (example_world None s) =
    (Normal None, example_world None s\<lparr>logs := [(Info, ''No user config found'')]\<rparr>)"
proof -
  have "getUserConfig (example_world None s) =
    (Normal None, example_world None s
       \<lparr>logs := logs (example_world None s) @ [(Info, ''No user config found'')]\<rparr>)"
    by (rule getUserConfig_missing) (simp add: example_world_paths example_world_read_user)
  then show ?thesis by (simp add: example_world_def)
qed

lemma example_world_system:
  assumes "JSON_parse d = Some (JObj [(js ''env'', JObj env)])"
    and "as_SystemConfig
            (js_or_any (obj_get env (js ''ANTHROPIC_AUTH_TOKEN'')) (obj_get env (js ''ANTHROPIC_API_KEY'')))
            (obj_get env (js ''ANTHROPIC_BASE_URL''))
            (js_or_any (obj_get env (js ''ANTHROPIC_MODEL'')) (obj_get env (js ''ANTHROPIC_DEFAULT_SONNET_MODEL'')))
         = Normal config"
  shows "getSystemConfig (example_world u (Some d)\<lparr>logs := l\<rparr>) =
    (Normal config,
     example_world u (Some d)\<lparr>logs := l @ [(Info, ''Loaded system config from {path}'')]\<rparr>)"
proof -
  let ?w = "example_world u (Some d)\<lparr>logs := l\<rparr>"
  have r: "fs_readFile (systemConfigPath ?w) ?w = (Normal d, ?w)"
    by (simp add: example_world_paths example_world_read_system)
  have e: "JObj env = js_or_json (lookup (JObj [(js ''env'', JObj env)]) (js ''env'')) (JObj [])"
    by (simp add: lookup_def obj_get_def js_or_json_def)
  show ?thesis
    using assms(2)
    by (simp add: getSystemConfig_parsed [OF r assms(1) _ e] lookup_def)
qed

lemma example_world_no_system:
  "getSystemConfig (example_world u None\<lparr>logs := l\<rparr>) =
    (Normal \<lparr>apiKey = None, baseUrl = None, model = None\<rparr>,
     example_world u None\<lparr>logs := l @ [(Warn, ''No system config found at {path}'')]\<rparr>)"
proof -
  let ?w = "example_world u None\<lparr>logs := l\<rparr>"
  have "fs_readFile (systemConfigPath ?w) ?w = (Throw (SystemError ''ENOENT''), ?w)"
    by (simp add: example_world_paths example_world_read_system)
  from getSystemConfig_missing [OF this] show ?thesis by simp
qed

text \<open>
  C1 as stated fails where a value is blank but not empty. The user config
  \<open>{useSystemDefaults: false, apiKey: "k", baseUrl: " "}\<close> passes the validation of
  \<open>handleSaveConfig\<close>; its \<open>baseUrl\<close> is empty after trimming, and resolution returns
  that one space, not the built-in default: \<open>||\<close> tests for the empty string and nothing
  trims the value.
\<close>

theorem getEffectiveConfig_blank_counterexample:
  \<open>fst (getUserConfig (example_world
          (Some (js ''{"useSystemDefaults": false, "apiKey": "k", "baseUrl": " "}'')) None))
     = Normal (Some \<lparr>apiKey = Some (js ''k''), baseUrl = Some (js '' ''), model = None,
                      useSystemDefaults = False\<rparr>)
   \<and> js_trim (js '' '') = []
   \<and> fst (getEffectiveConfig (example_world
          (Some (js ''{"useSystemDefaults": false, "apiKey": "k", "baseUrl": " "}'')) None))
     = Normal \<lparr>apiKey = js ''k'', baseUrl = js '' '', model = js ''claude-sonnet-4-20250514''\<rparr>
   \<and> js '' '' \<noteq> js ''https://api.anthropic.com''\<close>
proof -
  let ?d = \<open>js ''{"useSystemDefaults": false, "apiKey": "k", "baseUrl": " "}''\<close>
  let ?uc = "\<lparr>apiKey = Some (js ''k''), baseUrl = Some (js '' ''), model = None, useSystemDefaults = False\<rparr>"
  have p: "JSON_parse ?d = Some (JObj [(js ''useSystemDefaults'', JBool False),
      (js ''apiKey'', JStr (js ''k'')), (js ''baseUrl'', JStr (js '' ''))])"
    by code_simp
  have c: "as_UserConfig (JObj [(js ''useSystemDefaults'', JBool False),
      (js ''apiKey'', JStr (js ''k'')), (js ''baseUrl'', JStr (js '' ''))]) = Normal (Some ?uc)"
    by (simp add: as_UserConfig_def as_UserConfig_object_def obj_get_def as_opt_string_def)
  note u = example_world_user [OF p c, where s = None]
  note s = example_world_no_system [where u = "Some ?d" and l = "[(Info, ''Loaded user config from {path}'')]"]
  have n: "\<not> useSystemDefaults ?uc" by simp
  have t: "js_trim (js '' '') = []"
    by (simp add: js_trim_def is_js_space_def js_def)
  from getEffectiveConfig_custom [OF u s n] u t show ?thesis
    by simp
qed

text \<open>
  C1, amended: with \<open>useSystemDefaults == false\<close>, \<open>apiKey\<close> is the user's if present
  and non-empty, else the system's if present and non-empty, else the empty string;
  \<open>baseUrl\<close> and \<open>model\<close> are the user's if present and non-empty, else the built-in
  defaults. A value of white space only counts as supplied and is returned as it is. The
  system's \<open>baseUrl\<close> and \<open>model\<close> do not occur in the result.
\<close>

theorem getEffectiveConfig_user_branch:
  assumes "getUserConfig w = (Normal (Some uc), w1)"
    and "getSystemConfig w1 = (Normal sc, w2)"
    and "\<not> useSystemDefaults uc"
  shows "getEffectiveConfig w =
    (Normal \<lparr>apiKey = (case apiKey uc of
                          Some k \<Rightarrow> if k \<noteq> [] then k else (case apiKey sc of Some k' \<Rightarrow> k' | None \<Rightarrow> [])
                        | None \<Rightarrow> (case apiKey sc of Some k' \<Rightarrow> k' | None \<Rightarrow> [])),
             baseUrl = (case baseUrl uc of
                          Some u \<Rightarrow> if u \<noteq> [] then u else js ''https://api.anthropic.com''
                        | None \<Rightarrow> js ''https://api.anthropic.com''),
             model = (case model uc of
                          Some m \<Rightarrow> if m \<noteq> [] then m else js ''claude-sonnet-4-20250514''
                        | None \<Rightarrow> js ''claude-sonnet-4-20250514'')\<rparr>, w2)"
  by (rule getEffectiveConfig_custom [OF assms])

theorem getEffectiveConfig_user_branch_witness:
  \<open>getEffectiveConfig (example_world
      (Some (js ''{"useSystemDefaults": false, "apiKey": "", "baseUrl": "https://custom"}''))
      (Some (js ''{"env": {"ANTHROPIC_API_KEY": "sys-key", "ANTHROPIC_BASE_URL": "https://sys"}}'')))
   = (Normal \<lparr>apiKey = js ''sys-key'', baseUrl = js ''https://custom'',
               model = js ''claude-sonnet-4-20250514''\<rparr>,
      example_world
        (Some (js ''{"useSystemDefaults": false, "apiKey": "", "baseUrl": "https://custom"}''))
        (Some (js ''{"env": {"ANTHROPIC_API_KEY": "sys-key", "ANTHROPIC_BASE_URL": "https://sys"}}''))
        \<lparr>logs := [(Info, ''Loaded user config from {path}''),
                  (Info, ''Loaded system config from {path}'')]\<rparr>)\<close>
proof -
  let ?d = \<open>js ''{"useSystemDefaults": false, "apiKey": "", "baseUrl": "https://custom"}''\<close>
  let ?t = \<open>js ''{"env": {"ANTHROPIC_API_KEY": "sys-key", "ANTHROPIC_BASE_URL": "https://sys"}}''\<close>
  let ?uc = "\<lparr>apiKey = Some (js ''''), baseUrl = Some (js ''https://custom''), model = None,
              useSystemDefaults = False\<rparr>"
  let ?sc = "\<lparr>apiKey = Some (js ''sys-key''), baseUrl = Some (js ''https://sys''), model = None\<rparr>"
  have p: "JSON_parse ?d = Some (JObj [(js ''useSystemDefaults'', JBool False),
      (js ''apiKey'', JStr (js '''')), (js ''baseUrl'', JStr (js ''https://custom''))])"
    by code_simp
  have c: "as_UserConfig (JObj [(js ''useSystemDefaults'', JBool False),
      (js ''apiKey'', JStr (js '''')), (js ''baseUrl'', JStr (js ''https://custom''))]) = Normal (Some ?uc)"
    by (simp add: as_UserConfig_def as_UserConfig_object_def obj_get_def as_opt_string_def)
  have q: "JSON_parse ?t = Some (JObj [(js ''env'', JObj [(js ''ANTHROPIC_API_KEY'', JStr (js ''sys-key'')),
      (js ''ANTHROPIC_BASE_URL'', JStr (js ''https://sys''))])])"
    by code_simp
  have u: "getUserConfig (example_world (Some ?d) (Some ?t)) =
      (Normal (Some ?uc),
       example_world (Some ?d) (Some ?t)\<lparr>logs := [(Info, ''Loaded user config from {path}'')]\<rparr>)"
    by (rule example_world_user [OF p c])
  have s: "getSystemConfig
        (example_world (Some ?d) (Some ?t)\<lparr>logs := [(Info, ''Loaded user config from {path}'')]\<rparr>) =
      (Normal ?sc,
       example_world (Some ?d) (Some ?t)\<lparr>logs := [(Info, ''Loaded user config from {path}''),
                  (Info, ''Loaded system config from {path}'')]\<rparr>)"
    using example_world_system [OF q, where config = ?sc and u = "Some ?d"
        and l = "[(Info, ''Loaded user config from {path}'')]"]
    by (simp add: as_SystemConfig_def as_opt_string_def js_or_any_def obj_get_def)
  have n: "\<not> useSystemDefaults ?uc" by simp
  show ?thesis
    using getEffectiveConfig_user_branch [OF u s n] by simp
qed

text \<open>
  C2: with \<open>useSystemDefaults == true\<close>, and when there is no user config, the result is
  computed from the system config and the built-in defaults alone: \<open>apiKey\<close> is the
  system's or the empty string, \<open>baseUrl\<close> and \<open>model\<close> are the system's if present and
  non-empty, else the defaults. No field of the user config occurs in the result.
\<close>

theorem getEffectiveConfig_system_branch:
  assumes "getUserConfig w = (Normal userConfig, w1)"
    and "getSystemConfig w1 = (Normal sc, w2)"
    and "case userConfig of None \<Rightarrow> True | Some uc \<Rightarrow> useSystemDefaults uc"
  shows "getEffectiveConfig w =
    (Normal \<lparr>apiKey = (case apiKey sc of Some k \<Rightarrow> k | None \<Rightarrow> []),
             baseUrl = (case baseUrl sc of
                          Some u \<Rightarrow> if u \<noteq> [] then u else js ''https://api.anthropic.com''
                        | None \<Rightarrow> js ''https://api.anthropic.com''),
             model = (case model sc of
                          Some m \<Rightarrow> if m \<noteq> [] then m else js ''claude-sonnet-4-20250514''
                        | None \<Rightarrow> js ''claude-sonnet-4-20250514'')\<rparr>, w2)"
  by (rule getEffectiveConfig_system [OF assms])

theorem getEffectiveConfig_system_branch_witness:
  \<open>fst (getEffectiveConfig (example_world None
            (Some (js ''{"env": {"ANTHROPIC_API_KEY": "sys-key"}}''))))
     = Normal \<lparr>apiKey = js ''sys-key'', baseUrl = js ''https://api.anthropic.com'',
                model = js ''claude-sonnet-4-20250514''\<rparr>
   \<and> fst (getEffectiveConfig (example_world
            (Some (js ''{"useSystemDefaults": true, "apiKey": "user-key", "baseUrl": "https://custom", "model": "m"}''))
            (Some (js ''{"env": {"ANTHROPIC_API_KEY": "sys-key"}}''))))
     = Normal \<lparr>apiKey = js ''sys-key'', baseUrl = js ''https://api.anthropic.com'',
                model = js ''claude-sonnet-4-20250514''\<rparr>\<close>
proof -
  let ?d = \<open>js ''{"useSystemDefaults": true, "apiKey": "user-key", "baseUrl": "https://custom", "model": "m"}''\<close>
  let ?t = \<open>js ''{"env": {"ANTHROPIC_API_KEY": "sys-key"}}''\<close>
  let ?uc = "\<lparr>apiKey = Some (js ''user-key''), baseUrl = Some (js ''https://custom''), model = Some (js ''m''),
              useSystemDefaults = True\<rparr>"
  let ?sc = "\<lparr>apiKey = Some (js ''sys-key''), baseUrl = None, model = None\<rparr>"
  have p: "JSON_parse ?d = Some (JObj [(js ''useSystemDefaults'', JBool True),
      (js ''apiKey'', JStr (js ''user-key'')), (js ''baseUrl'', JStr (js ''https://custom'')), (js ''model'', JStr (js ''m''))])"
    by code_simp
  have c: "as_UserConfig (JObj [(js ''useSystemDefaults'', JBool True),
      (js ''apiKey'', JStr (js ''user-key'')), (js ''baseUrl'', JStr (js ''https://custom'')), (js ''model'', JStr (js ''m''))])
      = Normal (Some ?uc)"
    by (simp add: as_UserConfig_def as_UserConfig_object_def obj_get_def as_opt_string_def)
  have q: "JSON_parse ?t = Some (JObj [(js ''env'', JObj [(js ''ANTHROPIC_API_KEY'', JStr (js ''sys-key''))])])"
    by code_simp
  have s: "getSystemConfig (example_world u (Some ?t)\<lparr>logs := l\<rparr>) =
      (Normal ?sc, example_world u (Some ?t)\<lparr>logs := l @ [(Info, ''Loaded system config from {path}'')]\<rparr>)"
    for u l
    using example_world_system [OF q, where config = ?sc and u = u and l = l]
    by (simp add: as_SystemConfig_def as_opt_string_def js_or_any_def obj_get_def)
  have a: "fst (getEffectiveConfig (example_world None (Some ?t)))
     = Normal \<lparr>apiKey = js ''sys-key'', baseUrl = js ''https://api.anthropic.com'',
                model = js ''claude-sonnet-4-20250514''\<rparr>"
    using getEffectiveConfig_system_branch [OF example_world_no_user s] by simp
  have b: "fst (getEffectiveConfig (example_world (Some ?d) (Some ?t)))
     = Normal \<lparr>apiKey = js ''sys-key'', baseUrl = js ''https://api.anthropic.com'',
                model = js ''claude-sonnet-4-20250514''\<rparr>"
    using getEffectiveConfig_system_branch [OF example_world_user [OF p c] s] by simp
  from a b show ?thesis by simp
qed

text \<open>
  C4: whatever the two loaders return, resolution returns a configuration whose
  \<open>baseUrl\<close> and \<open>model\<close> are non-empty; the \<open>apiKey\<close> can be empty, as it is when
  neither file exists.
\<close>

theorem getEffectiveConfig_fields_nonempty:
  "(getUserConfig w = (Normal userConfig, w1) \<and> getSystemConfig w1 = (Normal sc, w2)
      \<longrightarrow> (\<exists>r. getEffectiveConfig w = (Normal r, w2) \<and> baseUrl r \<noteq> [] \<and> model r \<noteq> []))
   \<and> (\<exists>r. fst (getEffectiveConfig (example_world None None)) = Normal r \<and> apiKey r = [])"
proof (intro conjI impI)
  assume a: "getUserConfig w = (Normal userConfig, w1) \<and> getSystemConfig w1 = (Normal sc, w2)"
  show "\<exists>r. getEffectiveConfig w = (Normal r, w2) \<and> baseUrl r \<noteq> [] \<and> model r \<noteq> []"
  proof (cases "case userConfig of None \<Rightarrow> True | Some uc \<Rightarrow> useSystemDefaults uc")
    case True
    from a have u: "getUserConfig w = (Normal userConfig, w1)"
      and s: "getSystemConfig w1 = (Normal sc, w2)" by simp_all
    show ?thesis
      unfolding getEffectiveConfig_system [OF u s True]
      by (simp split: option.splits)
  next
    case False
    then obtain uc where uc: "userConfig = Some uc" "\<not> useSystemDefaults uc"
      by (auto split: option.splits)
    from a uc have u: "getUserConfig w = (Normal (Some uc), w1)"
      and s: "getSystemConfig w1 = (Normal sc, w2)" by simp_all
    show ?thesis
      unfolding getEffectiveConfig_custom [OF u s uc(2)]
      by (simp split: option.splits)
  qed
next
  show "\<exists>r. fst (getEffectiveConfig (example_world None None)) = Normal r \<and> apiKey r = []"
    using getEffectiveConfig_system [OF example_world_no_user example_world_no_system]
    by simp
qed

theorem getEffectiveConfig_fields_nonempty_witness:
  \<open>\<exists>r. getEffectiveConfig (example_world
           (Some (js ''{"useSystemDefaults": false, "baseUrl": ""}'')) None)
        = (Normal r,
           example_world (Some (js ''{"useSystemDefaults": false, "baseUrl": ""}'')) None
             \<lparr>logs := [(Info, ''Loaded user config from {path}''),
                       (Warn, ''No system config found at {path}'')]\<rparr>)
      \<and> baseUrl r \<noteq> [] \<and> model r \<noteq> []\<close>
proof -
  let ?d = \<open>js ''{"useSystemDefaults": false, "baseUrl": ""}''\<close>
  let ?uc = "\<lparr>apiKey = None, baseUrl = Some (js ''''), model = None, useSystemDefaults = False\<rparr>"
  have p: "JSON_parse ?d = Some (JObj [(js ''useSystemDefaults'', JBool False), (js ''baseUrl'', JStr (js ''''))])"
    by code_simp
  have c: "as_UserConfig (JObj [(js ''useSystemDefaults'', JBool False), (js ''baseUrl'', JStr (js ''''))])
      = Normal (Some ?uc)"
    by (simp add: as_UserConfig_def as_UserConfig_object_def obj_get_def as_opt_string_def)
  note u = example_world_user [OF p c, where s = None]
  note s = example_world_no_system [where u = "Some ?d" and l = "[(Info, ''Loaded user config from {path}'')]"]
  show ?thesis
    using getEffectiveConfig_fields_nonempty [of "example_world (Some ?d) None" "Some ?uc"] u s
    by simp
qed

section \<open>Request handlers: properties\<close>

lemma object_Cons_Some: "object ((k, Some v) # props) = JObj ((k, v) # (case object props of JObj kvs \<Rightarrow> kvs))"
  by (simp add: object_def List.map_filter_def)

lemma object_fields:
  "object [(k1, Some v1), (k2, map_option JStr a), (k3, map_option JStr b)] =
     JObj ([(k1, v1)] @ (case a of None \<Rightarrow> [] | Some x \<Rightarrow> [(k2, JStr x)])
                      @ (case b of None \<Rightarrow> [] | Some x \<Rightarrow> [(k3, JStr x)]))"
  by (simp add: object_def List.map_filter_def split: option.splits)

lemma object_fields4:
  "object [(k1, Some v1), (k2, map_option JStr a), (k3, map_option JStr b), (k4, map_option JStr c)] =
     JObj ([(k1, v1)] @ (case a of None \<Rightarrow> [] | Some x \<Rightarrow> [(k2, JStr x)])
                      @ (case b of None \<Rightarrow> [] | Some x \<Rightarrow> [(k3, JStr x)])
                      @ (case c of None \<Rightarrow> [] | Some x \<Rightarrow> [(k4, JStr x)]))"
  by (simp add: object_def List.map_filter_def split: option.splits)

lemma handleGetSystemConfig_response:
  assumes "getSystemConfig w = (Normal sc, w1)"
  shows "handleGetSystemConfig c w =
    (Normal \<lparr>status = 200,
             body = JObj ([(js ''hasSystemConfig'', JBool (apiKey sc \<noteq> None \<and> apiKey sc \<noteq> Some []))]
                          @ (case baseUrl sc of None \<Rightarrow> [] | Some u \<Rightarrow> [(js ''baseUrl'', JStr u)])
                          @ (case model sc of None \<Rightarrow> [] | Some m \<Rightarrow> [(js ''model'', JStr m)]))\<rparr>, w1)"
proof -
  have t: "truthy_str (apiKey sc) = (apiKey sc \<noteq> None \<and> apiKey sc \<noteq> Some [])"
    by (simp add: truthy_str_def split: option.splits)
  show ?thesis
    unfolding handleGetSystemConfig_def
    by (simp add: try_catch_def bind_io_def assms return_io_def c_json_def
        SystemConfigResponse_def object_fields t)
qed

lemma handleGetConfig_no_user:
  assumes "getUserConfig w = (Normal None, w1)" and "getSystemConfig w1 = (Normal sc, w2)"
  shows "handleGetConfig c w =
    (Normal \<lparr>status = 200,
             body = JObj ([(js ''useSystemDefaults'', JBool True)]
                          @ (case maskApiKey (apiKey sc) of None \<Rightarrow> [] | Some k \<Rightarrow> [(js ''apiKey'', JStr k)])
                          @ (case baseUrl sc of None \<Rightarrow> [] | Some u \<Rightarrow> [(js ''baseUrl'', JStr u)])
                          @ (case model sc of None \<Rightarrow> [] | Some m \<Rightarrow> [(js ''model'', JStr m)]))\<rparr>, w2)"
  unfolding handleGetConfig_def
  by (simp add: try_catch_def bind_io_def assms return_io_def c_json_def
      UserConfigResponse_def object_fields4)

lemma maskApiKey_fixed_point:
  "(maskApiKey (Some k) = Some k) = (k = js ''***'' \<or> length k = 13 \<and> take 3 (drop 7 k) = js ''...'')"
proof (cases "length k \<le> 10")
  case True
  then show ?thesis
    by (auto simp add: maskApiKey_def truthy_str_def)
next
  case False
  then have m: "maskApiKey (Some k) = Some (take 7 k @ js ''...'' @ drop (length k - 3) k)"
    by (auto simp add: maskApiKey_def truthy_str_def substring_prefix substring_from_drop)
  show ?thesis
  proof
    assume "maskApiKey (Some k) = Some k"
    with m have e: "take 7 k @ js ''...'' @ drop (length k - 3) k = k" by simp
    then have "length (take 7 k @ js ''...'' @ drop (length k - 3) k) = length k" by simp
    with False have l: "length k = 13" by simp
    from e have "drop 7 (take 7 k @ js ''...'' @ drop (length k - 3) k) = drop 7 k" by simp
    with l have "js ''...'' @ drop 10 k = drop 7 k" by simp
    then have "take 3 (js ''...'' @ drop 10 k) = take 3 (drop 7 k)" by simp
    with l show "k = js ''***'' \<or> length k = 13 \<and> take 3 (drop 7 k) = js ''...''" by simp
  next
    assume "k = js ''***'' \<or> length k = 13 \<and> take 3 (drop 7 k) = js ''...''"
    with False have a: "length k = 13 \<and> take 3 (drop 7 k) = js ''...''" by auto
    have "k = take 7 k @ take 3 (drop 7 k) @ drop 3 (drop 7 k)"
      by (simp only: append_take_drop_id)
    with a have "k = take 7 k @ js ''...'' @ drop 10 k" by simp
    with m a show "maskApiKey (Some k) = Some k" by simp
  qed
qed

lemma handleSaveConfig_reject:
  assumes "JSON_parse (req_body c) = Some parsed"
    and "as_SaveConfigRequest parsed = Normal req"
    and "\<not> useSystemDefaults req"
    and "case apiKey req of None \<Rightarrow> True | Some k \<Rightarrow> js_trim k = []"
  shows "handleSaveConfig c w =
    (Normal \<lparr>status = 400, body = JObj [(js ''error'', JStr (js ''API key is required''))]\<rparr>, w)"
proof -
  from assms(4) have b: "blank (apiKey req)"
    by (auto simp add: blank_def truthy_str_def split: option.splits)
  show ?thesis
    unfolding handleSaveConfig_def
    by (simp add: try_catch_def bind_io_def c_req_json_def JSON_parse_io_def assms(1,2,3) b
        return_io_def lift_io_def c_json_def error_response_def object_def List.map_filter_def)
qed

text \<open>
  C5: a save request with \<open>useSystemDefaults == false\<close> whose \<open>apiKey\<close> is absent or
  empty after trimming (\<open>trim\<close> strips every white space and line terminator code unit
  of ECMAScript, not only those of ASCII) is answered with status 400 and the reason
  \<open>API key is required\<close>, and the world after the call is the world before it: no file,
  no directory and no log entry has changed.
\<close>

theorem handleSaveConfig_rejects_blank_apiKey:
  assumes "JSON_parse (req_body c) = Some parsed"
    and "as_SaveConfigRequest parsed = Normal req"
    and "\<not> useSystemDefaults req"
    and "case apiKey req of None \<Rightarrow> True | Some k \<Rightarrow> js_trim k = []"
  shows "handleSaveConfig c w =
    (Normal \<lparr>status = 400, body = JObj [(js ''error'', JStr (js ''API key is required''))]\<rparr>, w)"
  by (rule handleSaveConfig_reject [OF assms])

theorem handleSaveConfig_rejects_blank_apiKey_witness:
  \<open>handleSaveConfig
      \<lparr>req_body = js ''{"useSystemDefaults": false, "apiKey": " '' @ [0x5C] @ js ''u3000''
                     @ [0x2003, 0xFEFF] @ js ''"}''\<rparr>
      (example_world (Some (js ''{"useSystemDefaults": true}'')) None)
   = (Normal \<lparr>status = 400, body = JObj [(js ''error'', JStr (js ''API key is required''))]\<rparr>,
      example_world (Some (js ''{"useSystemDefaults": true}'')) None)\<close>
proof -
  let ?c = \<open>\<lparr>req_body = js ''{"useSystemDefaults": false, "apiKey": " '' @ [0x5C] @ js ''u3000''
                     @ [0x2003, 0xFEFF] @ js ''"}''\<rparr>\<close>
  let ?req = "\<lparr>apiKey = Some [0x20, 0x3000, 0x2003, 0xFEFF], baseUrl = None, model = None,
               useSystemDefaults = False\<rparr>"
  have p: "JSON_parse (req_body ?c) =
      Some (JObj [(js ''useSystemDefaults'', JBool False),
                  (js ''apiKey'', JStr [0x20, 0x3000, 0x2003, 0xFEFF])])"
    by code_simp
  have r: "as_SaveConfigRequest (JObj [(js ''useSystemDefaults'', JBool False),
                  (js ''apiKey'', JStr [0x20, 0x3000, 0x2003, 0xFEFF])])
      = Normal ?req"
    by (simp add: as_SaveConfigRequest_def as_UserConfig_object_def obj_get_def as_opt_string_def)
  have n: "\<not> useSystemDefaults ?req" by simp
  have b: "case apiKey ?req of None \<Rightarrow> True | Some k \<Rightarrow> js_trim k = []"
    by (simp add: js_trim_def is_js_space_def)
  show ?thesis
    by (rule handleSaveConfig_rejects_blank_apiKey [OF p r n b])
qed

text \<open>
  C7: the summary answers with \<open>hasSystemConfig\<close> true exactly when the system config
  has a non-empty \<open>apiKey\<close>, together with the system's \<open>baseUrl\<close> and \<open>model\<close>; the
  response object has no \<open>apiKey\<close> member; and two system configs that differ only in
  the value of a credential both have (or both lack) get the same response.
\<close>

theorem handleGetSystemConfig_hides_credential:
  assumes "getSystemConfig w = (Normal sc, w1)"
  shows "(\<exists>members.
           handleGetSystemConfig c w = (Normal \<lparr>status = 200, body = JObj members\<rparr>, w1)
           \<and> members =
               [(js ''hasSystemConfig'', JBool (apiKey sc \<noteq> None \<and> apiKey sc \<noteq> Some []))]
               @ (case baseUrl sc of None \<Rightarrow> [] | Some u \<Rightarrow> [(js ''baseUrl'', JStr u)])
               @ (case model sc of None \<Rightarrow> [] | Some m \<Rightarrow> [(js ''model'', JStr m)])
           \<and> obj_get members (js ''apiKey'') = None)
    \<and> (getSystemConfig w' = (Normal sc', w1') \<and> baseUrl sc' = baseUrl sc \<and> model sc' = model sc
         \<and> (apiKey sc' \<noteq> None \<and> apiKey sc' \<noteq> Some []) = (apiKey sc \<noteq> None \<and> apiKey sc \<noteq> Some [])
        \<longrightarrow> fst (handleGetSystemConfig c' w') = fst (handleGetSystemConfig c w))"
proof (intro conjI impI)
  show "\<exists>members.
           handleGetSystemConfig c w = (Normal \<lparr>status = 200, body = JObj members\<rparr>, w1)
           \<and> members =
               [(js ''hasSystemConfig'', JBool (apiKey sc \<noteq> None \<and> apiKey sc \<noteq> Some []))]
               @ (case baseUrl sc of None \<Rightarrow> [] | Some u \<Rightarrow> [(js ''baseUrl'', JStr u)])
               @ (case model sc of None \<Rightarrow> [] | Some m \<Rightarrow> [(js ''model'', JStr m)])
           \<and> obj_get members (js ''apiKey'') = None"
    by (simp add: handleGetSystemConfig_response [OF assms] obj_get_def split: option.splits)
next
  assume a: "getSystemConfig w' = (Normal sc', w1') \<and> baseUrl sc' = baseUrl sc \<and> model sc' = model sc
         \<and> (apiKey sc' \<noteq> None \<and> apiKey sc' \<noteq> Some []) = (apiKey sc \<noteq> None \<and> apiKey sc \<noteq> Some [])"
  then have s': "getSystemConfig w' = (Normal sc', w1')" by simp
  from a show "fst (handleGetSystemConfig c' w') = fst (handleGetSystemConfig c w)"
    by (simp add: handleGetSystemConfig_response [OF assms] handleGetSystemConfig_response [OF s'])
qed

theorem handleGetSystemConfig_hides_credential_witness:
  \<open>fst (handleGetSystemConfig \<lparr>req_body = []\<rparr>
          (example_world None
             (Some (js ''{"env": {"ANTHROPIC_API_KEY": "sys-key", "ANTHROPIC_MODEL": "m"}}''))))
     = Normal \<lparr>status = 200,
                body = JObj [(js ''hasSystemConfig'', JBool True), (js ''model'', JStr (js ''m''))]\<rparr>
   \<and> fst (handleGetSystemConfig \<lparr>req_body = []\<rparr>
          (example_world None
             (Some (js ''{"env": {"ANTHROPIC_API_KEY": "another-key", "ANTHROPIC_MODEL": "m"}}''))))
     = fst (handleGetSystemConfig \<lparr>req_body = []\<rparr>
          (example_world None
             (Some (js ''{"env": {"ANTHROPIC_API_KEY": "sys-key", "ANTHROPIC_MODEL": "m"}}''))))\<close>
proof -
  let ?t = \<open>js ''{"env": {"ANTHROPIC_API_KEY": "sys-key", "ANTHROPIC_MODEL": "m"}}''\<close>
  let ?t' = \<open>js ''{"env": {"ANTHROPIC_API_KEY": "another-key", "ANTHROPIC_MODEL": "m"}}''\<close>
  let ?sc = "\<lparr>apiKey = Some (js ''sys-key''), baseUrl = None, model = Some (js ''m'')\<rparr>"
  let ?sc' = "\<lparr>apiKey = Some (js ''another-key''), baseUrl = None, model = Some (js ''m'')\<rparr>"
  have q: "JSON_parse ?t = Some (JObj [(js ''env'', JObj [(js ''ANTHROPIC_API_KEY'', JStr (js ''sys-key'')),
      (js ''ANTHROPIC_MODEL'', JStr (js ''m''))])])"
    by code_simp
  have q': "JSON_parse ?t' = Some (JObj [(js ''env'', JObj [(js ''ANTHROPIC_API_KEY'', JStr (js ''another-key'')),
      (js ''ANTHROPIC_MODEL'', JStr (js ''m''))])])"
    by code_simp
  have s: "getSystemConfig (example_world None (Some ?t)) =
      (Normal ?sc, example_world None (Some ?t)\<lparr>logs := [(Info, ''Loaded system config from {path}'')]\<rparr>)"
    using example_world_system [OF q, where config = ?sc and u = None and l = "[]"]
    by (simp add: as_SystemConfig_def as_opt_string_def js_or_any_def obj_get_def example_world_def)
  have s': "getSystemConfig (example_world None (Some ?t')) =
      (Normal ?sc', example_world None (Some ?t')\<lparr>logs := [(Info, ''Loaded system config from {path}'')]\<rparr>)"
    using example_world_system [OF q', where config = ?sc' and u = None and l = "[]"]
    by (simp add: as_SystemConfig_def as_opt_string_def js_or_any_def obj_get_def example_world_def)
  show ?thesis
    using handleGetSystemConfig_hides_credential [OF s, where w' = "example_world None (Some ?t')"
        and sc' = ?sc' and c = "\<lparr>req_body = []\<rparr>" and c' = "\<lparr>req_body = []\<rparr>"] s'
    by simp
qed

text \<open>
  C10 as stated fails in its last clause: a credential can be its own mask. For the
  system credential \<open>sk-ant-...xyz\<close> (13 characters, the middle three of them dots)
  the handler's response carries exactly that string.
\<close>

theorem handleGetConfig_raw_credential_counterexample:
  \<open>fst (getSystemConfig (example_world None
            (Some (js ''{"env": {"ANTHROPIC_API_KEY": "sk-ant-...xyz"}}''))))
     = Normal \<lparr>apiKey = Some (js ''sk-ant-...xyz''), baseUrl = None, model = None\<rparr>
   \<and> fst (handleGetConfig \<lparr>req_body = []\<rparr>
            (example_world None (Some (js ''{"env": {"ANTHROPIC_API_KEY": "sk-ant-...xyz"}}''))))
     = Normal \<lparr>status = 200,
                body = JObj [(js ''useSystemDefaults'', JBool True),
                             (js ''apiKey'', JStr (js ''sk-ant-...xyz''))]\<rparr>\<close>
proof -
  let ?t = \<open>js ''{"env": {"ANTHROPIC_API_KEY": "sk-ant-...xyz"}}''\<close>
  let ?sc = "\<lparr>apiKey = Some (js ''sk-ant-...xyz''), baseUrl = None, model = None\<rparr>"
  have q: "JSON_parse ?t = Some (JObj [(js ''env'', JObj [(js ''ANTHROPIC_API_KEY'', JStr (js ''sk-ant-...xyz''))])])"
    by code_simp
  have s: "getSystemConfig (example_world None (Some ?t)\<lparr>logs := l\<rparr>) =
      (Normal ?sc, example_world None (Some ?t)\<lparr>logs := l @ [(Info, ''Loaded system config from {path}'')]\<rparr>)"
    for l
    using example_world_system [OF q, where config = ?sc and u = None and l = l]
    by (simp add: as_SystemConfig_def as_opt_string_def js_or_any_def obj_get_def)
  have s0: "getSystemConfig (example_world None (Some ?t)) =
      (Normal ?sc, example_world None (Some ?t)\<lparr>logs := [(Info, ''Loaded system config from {path}'')]\<rparr>)"
    using s [of "[]"] by (simp add: example_world_def)
  have m: "maskApiKey (Some (js ''sk-ant-...xyz'')) = Some (js ''sk-ant-...xyz'')"
    by (simp add: maskApiKey_fixed_point js_def)
  show ?thesis
    using handleGetConfig_no_user [OF example_world_no_user s] s0
    by (simp add: m)
qed

text \<open>
  C10, amended: when no user config exists, the handler answers with status 200 and an
  object that holds \<open>useSystemDefaults: true\<close>, the system's \<open>baseUrl\<close> and \<open>model\<close>, and
  as \<open>apiKey\<close> the system credential passed through \<open>maskApiKey\<close>. That value differs
  from the raw credential except when the credential is \<open>***\<close> or has 13 characters
  with \<open>...\<close> as its 8th to 10th.
\<close>

theorem handleGetConfig_without_user_config:
  assumes "getUserConfig w = (Normal None, w1)" and "getSystemConfig w1 = (Normal sc, w2)"
  shows "handleGetConfig c w =
      (Normal \<lparr>status = 200,
               body = JObj ([(js ''useSystemDefaults'', JBool True)]
                            @ (case maskApiKey (apiKey sc) of None \<Rightarrow> [] | Some k \<Rightarrow> [(js ''apiKey'', JStr k)])
                            @ (case baseUrl sc of None \<Rightarrow> [] | Some u \<Rightarrow> [(js ''baseUrl'', JStr u)])
                            @ (case model sc of None \<Rightarrow> [] | Some m \<Rightarrow> [(js ''model'', JStr m)]))\<rparr>, w2)
    \<and> (maskApiKey (Some k) = Some k)
        = (k = js ''***'' \<or> length k = 13 \<and> take 3 (drop 7 k) = js ''...'')"
  using handleGetConfig_no_user [OF assms] maskApiKey_fixed_point by simp

theorem handleGetConfig_without_user_config_witness:
  \<open>fst (handleGetConfig \<lparr>req_body = []\<rparr>
          (example_world None
             (Some (js ''{"env": {"ANTHROPIC_AUTH_TOKEN": "sk-ant-1234567890", "ANTHROPIC_BASE_URL": "https://sys"}}''))))
     = Normal \<lparr>status = 200,
                body = JObj [(js ''useSystemDefaults'', JBool True),
                             (js ''apiKey'', JStr (js ''sk-ant-...890'')),
                             (js ''baseUrl'', JStr (js ''https://sys''))]\<rparr>
   \<and> maskApiKey (Some (js ''sk-ant-1234567890'')) \<noteq> Some (js ''sk-ant-1234567890'')\<close>
proof -
  let ?t = \<open>js ''{"env": {"ANTHROPIC_AUTH_TOKEN": "sk-ant-1234567890", "ANTHROPIC_BASE_URL": "https://sys"}}''\<close>
  let ?sc = "\<lparr>apiKey = Some (js ''sk-ant-1234567890''), baseUrl = Some (js ''https://sys''), model = None\<rparr>"
  have q: "JSON_parse ?t = Some (JObj [(js ''env'', JObj [(js ''ANTHROPIC_AUTH_TOKEN'', JStr (js ''sk-ant-1234567890'')),
      (js ''ANTHROPIC_BASE_URL'', JStr (js ''https://sys''))])])"
    by code_simp
  have s: "getSystemConfig (example_world None (Some ?t)\<lparr>logs := l\<rparr>) =
      (Normal ?sc, example_world None (Some ?t)\<lparr>logs := l @ [(Info, ''Loaded system config from {path}'')]\<rparr>)"
    for l
    using example_world_system [OF q, where config = ?sc and u = None and l = l]
    by (simp add: as_SystemConfig_def as_opt_string_def js_or_any_def obj_get_def)
  have m: "maskApiKey (Some (js ''sk-ant-1234567890'')) = Some (js ''sk-ant-...890'')"
    by (simp add: maskApiKey_def truthy_str_def substring_prefix substring_from_drop js_def)
  show ?thesis
    using handleGetConfig_without_user_config [OF example_world_no_user s,
        where c = "\<lparr>req_body = []\<rparr>" and k = "js ''sk-ant-1234567890''"]
    by (simp add: m)
qed

section \<open>The loaders never raise\<close>

lemma js_or_json_cases: "js_or_json a d = d \<or> a = Some (js_or_json a d)"
  by (simp add: js_or_json_def split: option.splits)

lemma lookup_SomeD: "lookup v k = Some x \<Longrightarrow> \<exists>kvs. v = JObj kvs \<and> obj_get kvs k = Some x"
  by (cases v) (simp_all add: lookup_def)

lemma lookup_not_object: "\<not> (\<exists>kvs. v = JObj kvs) \<Longrightarrow> lookup v k = None"
  by (cases v) (simp_all add: lookup_def)

lemma getSystemConfig_without_keys:
  assumes "fs_readFile (systemConfigPath w) w = (Normal data, w)"
    and "JSON_parse data = Some settings"
    and "\<forall>kvs env. settings = JObj kvs \<and> obj_get kvs (js ''env'') = Some (JObj env)
           \<longrightarrow> (\<forall>k \<in> {js ''ANTHROPIC_AUTH_TOKEN'', js ''ANTHROPIC_API_KEY'', js ''ANTHROPIC_BASE_URL'',
                        js ''ANTHROPIC_MODEL'', js ''ANTHROPIC_DEFAULT_SONNET_MODEL''}.
                   obj_get env k = None)"
  shows "fst (getSystemConfig w) = Normal \<lparr>apiKey = None, baseUrl = None, model = None\<rparr>"
proof -
  define env where "env = js_or_json (lookup settings (js ''env'')) (JObj [])"
  have "lookup env k = None"
    if k: "k \<in> {js ''ANTHROPIC_AUTH_TOKEN'', js ''ANTHROPIC_API_KEY'', js ''ANTHROPIC_BASE_URL'',
                  js ''ANTHROPIC_MODEL'', js ''ANTHROPIC_DEFAULT_SONNET_MODEL''}" for k
  proof (cases "\<exists>members. env = JObj members")
    case False
    then show ?thesis by (rule lookup_not_object)
  next
    case True
    then obtain members where m: "env = JObj members" by blast
    from js_or_json_cases [of "lookup settings (js ''env'')" "JObj []"]
    consider "env = JObj []" | "lookup settings (js ''env'') = Some env"
      unfolding env_def by blast
    then show ?thesis
    proof cases
      case 1
      then show ?thesis by (simp add: lookup_def obj_get_def)
    next
      case 2
      with m have "lookup settings (js ''env'') = Some (JObj members)" by simp
      from lookup_SomeD [OF this] obtain kvs where
        s: "settings = JObj kvs \<and> obj_get kvs (js ''env'') = Some (JObj members)" by blast
      from assms(3) [rule_format, OF s k] have "obj_get members k = None" .
      with m show ?thesis by (simp add: lookup_def)
    qed
  qed
  then have "\<forall>k \<in> {js ''ANTHROPIC_AUTH_TOKEN'', js ''ANTHROPIC_API_KEY'', js ''ANTHROPIC_BASE_URL'',
                  js ''ANTHROPIC_MODEL'', js ''ANTHROPIC_DEFAULT_SONNET_MODEL''}.
      lookup (js_or_json (lookup settings (js ''env'')) (JObj [])) k = None"
    unfolding env_def by (rule ballI)
  from getSystemConfig_no_keys [OF assms(1,2) this] show ?thesis .
qed

text \<open>
  C6: neither loader ever completes by throwing. \<open>getUserConfig\<close> returns \<open>null\<close> and
  logs at level info when the user file does not exist, and returns \<open>null\<close> and logs a
  warning when the file is there but is not JSON. \<open>getSystemConfig\<close> returns the config
  with every field absent when the system file does not exist, when it is not JSON, and
  when it is JSON with none of the five recognised keys: that is, whenever the parsed
  settings are not an object with an object \<open>env\<close> that has one of them.
\<close>

theorem loading_never_raises:
  "fst (getUserConfig w) \<noteq> Throw e \<and> fst (getSystemConfig w) \<noteq> Throw e
   \<and> (faults w ReadFile (userConfigPath w) = None \<and> userConfigPath w \<notin> dirs w
        \<and> files w (userConfigPath w) = None
      \<longrightarrow> getUserConfig w =
            (Normal None, w\<lparr>logs := logs w @ [(Info, ''No user config found'')]\<rparr>))
   \<and> (faults w ReadFile (userConfigPath w) = None \<and> userConfigPath w \<notin> dirs w
        \<and> files w (userConfigPath w) = Some udata \<and> JSON_parse udata = None
      \<longrightarrow> getUserConfig w =
            (Normal None, w\<lparr>logs := logs w @ [(Warn, ''Failed to read user config: {error}'')]\<rparr>))
   \<and> (faults w ReadFile (systemConfigPath w) = None \<and> systemConfigPath w \<notin> dirs w
        \<and> files w (systemConfigPath w) = None
      \<longrightarrow> getSystemConfig w =
            (Normal \<lparr>apiKey = None, baseUrl = None, model = None\<rparr>,
             w\<lparr>logs := logs w @ [(Warn, ''No system config found at {path}'')]\<rparr>))
   \<and> (faults w ReadFile (systemConfigPath w) = None \<and> systemConfigPath w \<notin> dirs w
        \<and> files w (systemConfigPath w) = Some sdata \<and> JSON_parse sdata = None
      \<longrightarrow> getSystemConfig w =
            (Normal \<lparr>apiKey = None, baseUrl = None, model = None\<rparr>,
             w\<lparr>logs := logs w @ [(Warn, ''Failed to read system config: {error}'')]\<rparr>))
   \<and> (faults w ReadFile (systemConfigPath w) = None \<and> systemConfigPath w \<notin> dirs w
        \<and> files w (systemConfigPath w) = Some sdata \<and> JSON_parse sdata = Some settings
        \<and> (\<forall>kvs env. settings = JObj kvs \<and> obj_get kvs (js ''env'') = Some (JObj env)
              \<longrightarrow> (\<forall>k \<in> {js ''ANTHROPIC_AUTH_TOKEN'', js ''ANTHROPIC_API_KEY'', js ''ANTHROPIC_BASE_URL'',
                           js ''ANTHROPIC_MODEL'', js ''ANTHROPIC_DEFAULT_SONNET_MODEL''}.
                      obj_get env k = None))
      \<longrightarrow> fst (getSystemConfig w) = Normal \<lparr>apiKey = None, baseUrl = None, model = None\<rparr>)"
proof (intro conjI impI)
  show "fst (getUserConfig w) \<noteq> Throw e" by (rule getUserConfig_no_throw)
next
  show "fst (getSystemConfig w) \<noteq> Throw e" by (rule getSystemConfig_no_throw)
next
  assume "faults w ReadFile (userConfigPath w) = None \<and> userConfigPath w \<notin> dirs w
        \<and> files w (userConfigPath w) = None"
  then have "fs_readFile (userConfigPath w) w = (Throw (SystemError ''ENOENT''), w)"
    by (simp add: fs_readFile_missing)
  then show "getUserConfig w =
            (Normal None, w\<lparr>logs := logs w @ [(Info, ''No user config found'')]\<rparr>)"
    by (rule getUserConfig_missing)
next
  assume a: "faults w ReadFile (userConfigPath w) = None \<and> userConfigPath w \<notin> dirs w
        \<and> files w (userConfigPath w) = Some udata \<and> JSON_parse udata = None"
  then have "fs_readFile (userConfigPath w) w = (Normal udata, w)"
    by (simp add: fs_readFile_ok)
  with a show "getUserConfig w =
            (Normal None, w\<lparr>logs := logs w @ [(Warn, ''Failed to read user config: {error}'')]\<rparr>)"
    by (simp add: getUserConfig_corrupt)
next
  assume "faults w ReadFile (systemConfigPath w) = None \<and> systemConfigPath w \<notin> dirs w
        \<and> files w (systemConfigPath w) = None"
  then have "fs_readFile (systemConfigPath w) w = (Throw (SystemError ''ENOENT''), w)"
    by (simp add: fs_readFile_missing)
  then show "getSystemConfig w =
            (Normal \<lparr>apiKey = None, baseUrl = None, model = None\<rparr>,
             w\<lparr>logs := logs w @ [(Warn, ''No system config found at {path}'')]\<rparr>)"
    by (rule getSystemConfig_missing)
next
  assume a: "faults w ReadFile (systemConfigPath w) = None \<and> systemConfigPath w \<notin> dirs w
        \<and> files w (systemConfigPath w) = Some sdata \<and> JSON_parse sdata = None"
  then have "fs_readFile (systemConfigPath w) w = (Normal sdata, w)"
    by (simp add: fs_readFile_ok)
  with a show "getSystemConfig w =
            (Normal \<lparr>apiKey = None, baseUrl = None, model = None\<rparr>,
             w\<lparr>logs := logs w @ [(Warn, ''Failed to read system config: {error}'')]\<rparr>)"
    by (simp add: getSystemConfig_corrupt)
next
  assume a: "faults w ReadFile (systemConfigPath w) = None \<and> systemConfigPath w \<notin> dirs w
        \<and> files w (systemConfigPath w) = Some sdata \<and> JSON_parse sdata = Some settings
        \<and> (\<forall>kvs env. settings = JObj kvs \<and> obj_get kvs (js ''env'') = Some (JObj env)
              \<longrightarrow> (\<forall>k \<in> {js ''ANTHROPIC_AUTH_TOKEN'', js ''ANTHROPIC_API_KEY'', js ''ANTHROPIC_BASE_URL'',
                           js ''ANTHROPIC_MODEL'', js ''ANTHROPIC_DEFAULT_SONNET_MODEL''}.
                      obj_get env k = None))"
  then have r: "fs_readFile (systemConfigPath w) w = (Normal sdata, w)"
    by (simp add: fs_readFile_ok)
  from a have p: "JSON_parse sdata = Some settings" by (elim conjE)
  from a have k: "\<forall>kvs env. settings = JObj kvs \<and> obj_get kvs (js ''env'') = Some (JObj env)
              \<longrightarrow> (\<forall>k \<in> {js ''ANTHROPIC_AUTH_TOKEN'', js ''ANTHROPIC_API_KEY'', js ''ANTHROPIC_BASE_URL'',
                           js ''ANTHROPIC_MODEL'', js ''ANTHROPIC_DEFAULT_SONNET_MODEL''}.
                      obj_get env k = None)" by (elim conjE)
  show "fst (getSystemConfig w) = Normal \<lparr>apiKey = None, baseUrl = None, model = None\<rparr>"
    by (rule getSystemConfig_without_keys [OF r p k])
qed

theorem loading_never_raises_witness:
  \<open>getUserConfig (example_world None None) =
      (Normal None, example_world None None\<lparr>logs := [(Info, ''No user config found'')]\<rparr>)
   \<and> getSystemConfig (example_world None None) =
      (Normal \<lparr>apiKey = None, baseUrl = None, model = None\<rparr>,
       example_world None None\<lparr>logs := [(Warn, ''No system config found at {path}'')]\<rparr>)
   \<and> getUserConfig (example_world (Some (js ''{"useSystemDefaults": tru'')) (Some (js ''<html>''))) =
      (Normal None,
       example_world (Some (js ''{"useSystemDefaults": tru'')) (Some (js ''<html>''))
         \<lparr>logs := [(Warn, ''Failed to read user config: {error}'')]\<rparr>)
   \<and> getSystemConfig (example_world (Some (js ''{"useSystemDefaults": tru'')) (Some (js ''<html>''))) =
      (Normal \<lparr>apiKey = None, baseUrl = None, model = None\<rparr>,
       example_world (Some (js ''{"useSystemDefaults": tru'')) (Some (js ''<html>''))
         \<lparr>logs := [(Warn, ''Failed to read system config: {error}'')]\<rparr>)
   \<and> fst (getSystemConfig
            (example_world None (Some (js ''{"env": {"PATH": "/bin"}, "theme": "dark"}''))))
     = Normal \<lparr>apiKey = None, baseUrl = None, model = None\<rparr>\<close>
proof -
  let ?u = \<open>js ''{"useSystemDefaults": tru''\<close>
  let ?s = \<open>js ''<html>''\<close>
  let ?t = \<open>js ''{"env": {"PATH": "/bin"}, "theme": "dark"}''\<close>
  let ?settings = "JObj [(js ''env'', JObj [(js ''PATH'', JStr (js ''/bin''))]), (js ''theme'', JStr (js ''dark''))]"
  have pu: "JSON_parse ?u = None" by code_simp
  have ps: "JSON_parse ?s = None" by code_simp
  have pt: "JSON_parse ?t = Some ?settings"
    by code_simp
  have paths:
    "userConfigPath (example_world a b) = ''/home/u/.claude-webui/config.json''"
    "systemConfigPath (example_world a b) = ''/home/u/.claude/settings.json''" for a b
    by (simp_all add: example_world_paths)
  have w: "faults (example_world a b) = (\<lambda>_ _. None)" "dirs (example_world a b) = {}"
    "files (example_world a b) ''/home/u/.claude-webui/config.json'' = a"
    "files (example_world a b) ''/home/u/.claude/settings.json'' = b"
    "logs (example_world a b) = []" for a b
    by (simp_all add: example_world_def)
  have k: "\<forall>kvs env. ?settings = JObj kvs \<and> obj_get kvs (js ''env'') = Some (JObj env)
              \<longrightarrow> (\<forall>k \<in> {js ''ANTHROPIC_AUTH_TOKEN'', js ''ANTHROPIC_API_KEY'', js ''ANTHROPIC_BASE_URL'',
                           js ''ANTHROPIC_MODEL'', js ''ANTHROPIC_DEFAULT_SONNET_MODEL''}.
                      obj_get env k = None)"
    by (auto simp add: obj_get_def)
  show ?thesis
    using loading_never_raises [of "example_world None None"]
      loading_never_raises [of "example_world (Some ?u) (Some ?s)" _ ?u ?s]
      loading_never_raises [of "example_world None (Some ?t)" _ _ ?t ?settings] k
    by (simp add: paths w pu ps pt)
qed

section \<open>What \<open>JSON.stringify\<close> writes, \<open>JSON.parse\<close> reads back\<close>

lemma hex_val_unat:
  "hex_val c =
     (if 48 \<le> unat c \<and> unat c \<le> 57 then Some (unat c - 48)
      else if 97 \<le> unat c \<and> unat c \<le> 102 then Some (unat c - 87)
      else if 65 \<le> unat c \<and> unat c \<le> 70 then Some (unat c - 55)
      else None)"
  by (simp add: hex_val_def word_le_nat_alt)

lemma unat_hex_digit: "d < 16 \<Longrightarrow> unat (hex_digit d) = (if d < 10 then 48 + d else 87 + d)"
  unfolding hex_digit_def by (simp only: unat_of_nat_small split: if_splits) (simp add: unat_of_nat_small)

lemma hex_val_hex_digit: "d < 16 \<Longrightarrow> hex_val (hex_digit d) = Some d"
  by (simp add: hex_val_unat unat_hex_digit)

lemma hex4_nat:
  "((n div 4096 * 16 + n div 256 mod 16) * 16 + n div 16 mod 16) * 16 + n mod 16 = (n::nat)"
proof -
  have b: "n div 16 = (n div 256) * 16 + (n div 16) mod 16"
    using div_mult2_eq [of n 16 16] by simp
  have c: "n div 256 = (n div 4096) * 16 + (n div 256) mod 16"
    using div_mult2_eq [of n 256 16] by simp
  have "(n div 4096 * 16 + n div 256 mod 16) = n div 256" using c by simp
  then have "((n div 4096 * 16 + n div 256 mod 16) * 16 + n div 16 mod 16) = n div 16"
    using b by simp
  then show ?thesis by simp
qed

lemma hex4: "of_nat (((unat c div 4096 * 16 + unat c div 256 mod 16) * 16 + unat c div 16 mod 16) * 16 + unat c mod 16) = (c :: code_unit)"
  by (simp only: hex4_nat) simp


lemma surrogate_plain:
  assumes "is_high_surrogate c \<or> is_low_surrogate c"
  shows "c \<noteq> 0x22" "c \<noteq> 0x5C" "\<not> c < 0x20"
  using assms
  by (auto simp add: is_high_surrogate_def is_low_surrogate_def word_le_nat_alt word_less_nat_alt)

lemma parse_chars_plain:
  assumes "c \<noteq> 0x22" "c \<noteq> 0x5C" "\<not> c < 0x20" and "parse_chars rest = Some (s, rest')"
  shows "parse_chars (c # rest) = Some (c # s, rest')"
  using assms by simp

lemma parse_chars_UnicodeEscape:
  assumes "parse_chars rest = Some (s, rest')"
  shows "parse_chars (UnicodeEscape c @ rest) = Some (c # s, rest')"
proof -
  have d: "unat c div 4096 < 16" "unat c div 256 mod 16 < 16" "unat c div 16 mod 16 < 16"
    "unat c mod 16 < 16"
    using unat_lt [of c] by simp_all
  have "parse_chars (UnicodeEscape c @ rest) =
      Some (of_nat (((unat c div 4096 * 16 + unat c div 256 mod 16) * 16 + unat c div 16 mod 16) * 16
                    + unat c mod 16) # s, rest')"
    unfolding UnicodeEscape_def
    using assms
    by (simp add: hex_val_hex_digit [OF d(1)] hex_val_hex_digit [OF d(2)]
        hex_val_hex_digit [OF d(3)] hex_val_hex_digit [OF d(4)] del: of_nat_add of_nat_mult)
  then show ?thesis by (simp only: hex4)
qed

lemma parse_chars_escape_code_unit:
  assumes "parse_chars rest = Some (s, rest')"
  shows "parse_chars (escape_code_unit c @ rest) = Some (c # s, rest')"
proof -
  consider (special) "c \<in> {0x08, 0x09, 0x0A, 0x0C, 0x0D, 0x22, 0x5C}"
    | (escaped) "c \<notin> {0x08, 0x09, 0x0A, 0x0C, 0x0D, 0x22, 0x5C}"
        "c < 0x20 \<or> is_high_surrogate c \<or> is_low_surrogate c"
    | (plain) "c \<notin> {0x08, 0x09, 0x0A, 0x0C, 0x0D, 0x22, 0x5C}"
        "\<not> (c < 0x20 \<or> is_high_surrogate c \<or> is_low_surrogate c)"
    by blast
  then show ?thesis
  proof cases
    case special
    then show ?thesis
      using assms by (auto simp add: escape_code_unit_def unescape_def)
  next
    case escaped
    then have "escape_code_unit c = UnicodeEscape c"
      by (simp add: escape_code_unit_def)
    with parse_chars_UnicodeEscape [OF assms] show ?thesis by simp
  next
    case plain
    then show ?thesis
      using assms by (simp add: escape_code_unit_def)
  qed
qed

lemma escape_string_pair:
  "is_high_surrogate c \<and> is_low_surrogate d
   \<Longrightarrow> escape_string (c # d # cs) = c # d # escape_string cs"
  by simp

lemma escape_string_single:
  "\<not> (is_high_surrogate c \<and> is_low_surrogate d)
   \<Longrightarrow> escape_string (c # d # cs) = escape_code_unit c @ escape_string (d # cs)"
  by auto

lemma parse_chars_quoted:
  "parse_chars (escape_string s @ 0x22 # rest) = Some (s, rest)"
proof (induction s rule: escape_string.induct)
  case 1
  show ?case by simp
next
  case (2 c)
  have "parse_chars (0x22 # rest) = Some ([], rest)" by simp
  from parse_chars_escape_code_unit [OF this, of c] show ?case by simp
next
  case (3 c d cs)
  show ?case
  proof (cases "is_high_surrogate c \<and> is_low_surrogate d")
    case True
    then have c: "is_high_surrogate c \<or> is_low_surrogate c"
      and d: "is_high_surrogate d \<or> is_low_surrogate d" by simp_all
    from True "3.IH"(1) have "parse_chars (escape_string cs @ 0x22 # rest) = Some (cs, rest)"
      by simp
    from parse_chars_plain [OF surrogate_plain [OF d] this]
    have "parse_chars (d # escape_string cs @ 0x22 # rest) = Some (d # cs, rest)" .
    from parse_chars_plain [OF surrogate_plain [OF c] this]
    show ?thesis by (simp only: escape_string_pair [OF True] append_Cons)
  next
    case False
    with "3.IH"(2) have "parse_chars (escape_string (d # cs) @ 0x22 # rest) = Some (d # cs, rest)"
      by simp
    from parse_chars_escape_code_unit [OF this, of c]
    show ?thesis by (simp only: escape_string_single [OF False] append_assoc)
  qed
qed

lemma QuoteJSONString_Cons:
  "QuoteJSONString s @ rest = 0x22 # (escape_string s @ 0x22 # rest)"
  by (simp add: QuoteJSONString_def)

lemma skip_ws_simps:
  "skip_ws [] = []"
  "skip_ws (0x0A # cs) = skip_ws cs"
  "skip_ws (0x20 # cs) = skip_ws cs"
  "skip_ws (0x22 # cs) = 0x22 # cs"
  "skip_ws (0x3A # cs) = 0x3A # cs"
  "skip_ws (0x2C # cs) = 0x2C # cs"
  "skip_ws (0x7B # cs) = 0x7B # cs"
  "skip_ws (0x7D # cs) = 0x7D # cs"
  "skip_ws (0x74 # cs) = 0x74 # cs"
  "skip_ws (0x66 # cs) = 0x66 # cs"
  by (simp_all add: skip_ws_def is_ws_def)

lemma parse_value_scalar:
  assumes "scalar v"
  shows "parse_value (Suc n) (render_value v @ rest) = Some (v, rest)"
proof (cases v)
  case (JBool b)
  then show ?thesis
    by (cases b) (simp_all add: render_value_def skip_ws_simps js_def)
next
  case (JStr s)
  then show ?thesis
    by (simp add: render_value_def QuoteJSONString_Cons skip_ws_simps parse_chars_quoted)
qed (use assms in \<open>simp_all add: scalar_def\<close>)

lemma parse_members_step:
  assumes "scalar v"
  shows "parse_members (Suc (Suc n)) acc (QuoteJSONString k @ js '': '' @ render_value v @ rest) =
    (case skip_ws rest of
       [] \<Rightarrow> None
     | c2 # r4 \<Rightarrow>
         if c2 = 0x2C then parse_members (Suc n) (acc @ [(k, v)]) r4
         else if c2 = 0x7D then Some (JObj (acc @ [(k, v)]), r4)
         else None)"
proof -
  have a: "QuoteJSONString k @ js '': '' @ render_value v @ rest =
      0x22 # (escape_string k @ 0x22 # (0x3A # 0x20 # (render_value v @ rest)))"
    by (simp add: QuoteJSONString_def js_def)
  have b: "parse_value (Suc n) (0x20 # (render_value v @ rest)) = Some (v, rest)"
    using parse_value_scalar [OF assms, of n rest]
    by (simp add: skip_ws_simps)
  show ?thesis
    unfolding a
    by (simp add: skip_ws_simps parse_chars_quoted b del: parse_value.simps)
qed

lemma parse_members_render:
  assumes "kvs \<noteq> []" and "\<forall>(k, v) \<in> set kvs. scalar v" and "length kvs < n"
  shows "parse_members n acc (render_members kvs @ rest) = Some (JObj (acc @ kvs), rest)"
  using assms
proof (induction kvs arbitrary: n acc rule: render_members.induct)
  case 1
  then show ?case by simp
next
  case (2 k v)
  then obtain n' where n: "n = Suc (Suc n')"
    by (metis Suc_lessE length_Cons less_Suc_eq_0_disj list.size(3) not_less_eq)
  from 2 have s: "scalar v" by simp
  show ?case
    unfolding n
    using parse_members_step [OF s, of n' acc k "[0x0A] @ js ''}'' @ rest"]
    by (simp add: skip_ws_simps js_def)
next
  case (3 k v m ms)
  then obtain n' where n: "n = Suc (Suc n')"
    by (metis Suc_lessE length_Cons less_Suc_eq_0_disj list.size(3) not_less_eq)
  from 3 have s: "scalar v" by simp
  have ih: "parse_members (Suc n') (acc @ [(k, v)]) (render_members (m # ms) @ rest) =
      Some (JObj ((acc @ [(k, v)]) @ m # ms), rest)"
    using 3 n by (intro "3.IH") auto
  obtain c r where r: "render_members (m # ms) @ rest = 0x22 # r"
    by (cases m; cases ms) (auto simp add: QuoteJSONString_def)
  have st: "parse_members (Suc (Suc n')) acc (render_members ((k, v) # m # ms) @ rest)
      = parse_members (Suc n') (acc @ [(k, v)])
          (0x0A # 0x20 # 0x20 # (render_members (m # ms) @ rest))"
    using parse_members_step [OF s, of n' acc k
        "js '','' @ [0x0A] @ js ''  '' @ render_members (m # ms) @ rest"]
    by (simp add: skip_ws_simps js_def del: parse_members.simps)
  have l: "parse_members (Suc n') (acc @ [(k, v)])
        (0x0A # 0x20 # 0x20 # (render_members (m # ms) @ rest))
      = parse_members (Suc n') (acc @ [(k, v)]) (render_members (m # ms) @ rest)"
    by (simp add: skip_ws_simps r)
  show ?case
    unfolding n st l ih by simp
qed

lemma JSON_stringify_UserConfig_render:
  "JSON_stringify_UserConfig config =
     js ''{'' @ [0x0A] @ js ''  '' @ render_members (UserConfig_members config)"
  by (cases "apiKey config"; cases "baseUrl config"; cases "model config")
    (simp_all add: JSON_stringify_UserConfig_def stringify_object_def List.map_filter_def
      UserConfig_members_def render_value_def)

lemma UserConfig_members_scalar: "\<forall>(k, v) \<in> set (UserConfig_members config). scalar v"
  by (auto simp add: UserConfig_members_def scalar_def split: option.splits)

lemma UserConfig_members_length:
  "UserConfig_members config \<noteq> []" "length (UserConfig_members config) \<le> 4"
  by (simp_all add: UserConfig_members_def split: option.splits)

lemma render_members_length: "4 * length kvs \<le> length (render_members kvs)"
  by (induction kvs rule: render_members.induct) (simp_all add: QuoteJSONString_def)

lemma render_members_starts:
  "kvs \<noteq> [] \<Longrightarrow> \<exists>r. render_members kvs = 0x22 # r"
  by (induction kvs rule: render_members.induct) (simp_all add: QuoteJSONString_def)

lemma JSON_parse_UserConfig:
  "JSON_parse (JSON_stringify_UserConfig config) = Some (JObj (UserConfig_members config))"
proof -
  let ?kvs = "UserConfig_members config"
  let ?n = "2 * length (js ''{'' @ [0x0A] @ js ''  '' @ render_members ?kvs)"
  obtain r where r: "render_members ?kvs = 0x22 # r"
    using render_members_starts UserConfig_members_length(1) by blast
  have "length ?kvs < ?n"
    using render_members_length [of ?kvs] by simp
  then have m: "parse_members ?n [] (render_members ?kvs @ []) = Some (JObj ([] @ ?kvs), [])"
    by (intro parse_members_render UserConfig_members_length UserConfig_members_scalar)
  have "parse_value (Suc ?n) (js ''{'' @ [0x0A] @ js ''  '' @ render_members ?kvs)
      = parse_members ?n [] (render_members ?kvs)"
    by (simp add: skip_ws_simps r js_def del: parse_members.simps)
  with m have "parse_value (Suc ?n) (js ''{'' @ [0x0A] @ js ''  '' @ render_members ?kvs)
      = Some (JObj ?kvs, [])"
    by simp
  then show ?thesis
    unfolding JSON_parse_def JSON_stringify_UserConfig_render
    by (simp add: skip_ws_simps del: parse_value.simps)
qed

lemma as_UserConfig_members:
  "as_UserConfig (JObj (UserConfig_members config)) = Normal (Some config)"
  by (cases "apiKey config"; cases "baseUrl config"; cases "model config")
    (simp_all add: as_UserConfig_def as_UserConfig_object_def UserConfig_members_def
      obj_get_def as_opt_string_def)

section \<open>What \<open>JSON.stringify\<close> writes survives UTF-8\<close>

lemma toWellFormed_Cons:
  "\<not> is_surrogate c \<Longrightarrow> toWellFormed (c # cs) = c # toWellFormed cs"
  by (cases cs) (simp_all add: is_surrogate_def)

lemma toWellFormed_append:
  "\<forall>c \<in> set a. \<not> is_surrogate c \<Longrightarrow> toWellFormed (a @ b) = a @ toWellFormed b"
  by (induction a) (simp_all add: toWellFormed_Cons del: toWellFormed.simps)

lemma js_no_surrogate: "\<forall>c \<in> set (js s). \<not> is_surrogate c"
proof -
  have "\<not> is_surrogate (of_char x)" for x :: char
  proof -
    have "(of_char x :: nat) mod 256 < 256" by (rule mod_less_divisor) simp
    then have "(of_char x :: nat) < 256" by (simp only: of_char_mod_256)
    then have "unat (of_char x :: code_unit) < 256" by (simp only: unat_of_char)
    then show ?thesis
      unfolding is_surrogate_def is_high_surrogate_def is_low_surrogate_def word_le_nat_alt
      by simp
  qed
  then show ?thesis by (simp add: js_def)
qed

lemma hex_digit_no_surrogate: "d < 16 \<Longrightarrow> \<not> is_surrogate (hex_digit d)"
  by (simp add: is_surrogate_def is_high_surrogate_def is_low_surrogate_def word_le_nat_alt
      unat_hex_digit)

lemma escape_code_unit_no_surrogate:
  "\<forall>x \<in> set (escape_code_unit c). \<not> is_surrogate x"
proof -
  have d: "unat c div 4096 < 16" "unat c div 256 mod 16 < 16" "unat c div 16 mod 16 < 16"
    "unat c mod 16 < 16"
    using unat_lt [of c] by simp_all
  have n: "\<not> is_surrogate 0x5C" "\<not> is_surrogate 0x75" "\<not> is_surrogate 0x62"
    "\<not> is_surrogate 0x74" "\<not> is_surrogate 0x6E" "\<not> is_surrogate 0x66" "\<not> is_surrogate 0x72"
    "\<not> is_surrogate 0x22"
    by (simp_all add: is_surrogate_def is_high_surrogate_def is_low_surrogate_def)
  consider (special) "c \<in> {0x08, 0x09, 0x0A, 0x0C, 0x0D, 0x22, 0x5C}"
    | (escaped) "c \<notin> {0x08, 0x09, 0x0A, 0x0C, 0x0D, 0x22, 0x5C}"
        "c < 0x20 \<or> is_high_surrogate c \<or> is_low_surrogate c"
    | (plain) "c \<notin> {0x08, 0x09, 0x0A, 0x0C, 0x0D, 0x22, 0x5C}"
        "\<not> (c < 0x20 \<or> is_high_surrogate c \<or> is_low_surrogate c)"
    by blast
  then show ?thesis
  proof cases
    case special
    then show ?thesis by (auto simp add: escape_code_unit_def n)
  next
    case escaped
    then have "escape_code_unit c = UnicodeEscape c"
      by (simp add: escape_code_unit_def)
    then show ?thesis
      by (simp add: UnicodeEscape_def n hex_digit_no_surrogate d)
  next
    case plain
    then show ?thesis by (simp add: escape_code_unit_def is_surrogate_def)
  qed
qed

lemma toWellFormed_pair:
  "is_high_surrogate c \<and> is_low_surrogate d
   \<Longrightarrow> toWellFormed (c # d # cs) = c # d # toWellFormed cs"
  by simp

lemma toWellFormed_escape_string:
  "toWellFormed (escape_string s @ b) = escape_string s @ toWellFormed b"
proof (induction s arbitrary: b rule: escape_string.induct)
  case 1
  show ?case by simp
next
  case (2 c)
  show ?case
    by (simp add: toWellFormed_append escape_code_unit_no_surrogate del: toWellFormed.simps)
next
  case (3 c d cs)
  show ?case
  proof (cases "is_high_surrogate c \<and> is_low_surrogate d")
    case True
    with "3.IH"(1) have "toWellFormed (escape_string cs @ b) = escape_string cs @ toWellFormed b"
      by simp
    then show ?thesis
      by (simp only: escape_string_pair [OF True] append_Cons toWellFormed_pair [OF True])
  next
    case False
    with "3.IH"(2) have "toWellFormed (escape_string (d # cs) @ b)
        = escape_string (d # cs) @ toWellFormed b"
      by simp
    then show ?thesis
      by (simp only: escape_string_single [OF False] append_assoc
          toWellFormed_append [OF escape_code_unit_no_surrogate])
  qed
qed

lemma toWellFormed_js: "toWellFormed (js s @ b) = js s @ toWellFormed b"
  by (rule toWellFormed_append [OF js_no_surrogate])

lemma toWellFormed_QuoteJSONString:
  "toWellFormed (QuoteJSONString s @ b) = QuoteJSONString s @ toWellFormed b"
proof -
  have q: "\<not> is_surrogate 0x22"
    by (simp add: is_surrogate_def is_high_surrogate_def is_low_surrogate_def)
  show ?thesis
    by (simp add: QuoteJSONString_def toWellFormed_Cons [OF q] toWellFormed_escape_string
        del: toWellFormed.simps)
qed

lemma toWellFormed_render_value:
  "scalar v \<Longrightarrow> toWellFormed (render_value v @ b) = render_value v @ toWellFormed b"
  by (cases v) (simp_all add: scalar_def render_value_def toWellFormed_js
      toWellFormed_QuoteJSONString del: toWellFormed.simps)

lemma toWellFormed_render_members:
  "\<forall>(k, v) \<in> set kvs. scalar v
   \<Longrightarrow> toWellFormed (render_members kvs @ b) = render_members kvs @ toWellFormed b"
proof (induction kvs rule: render_members.induct)
  case 1
  show ?case by simp
next
  case (2 k v)
  have n: "\<not> is_surrogate 0x0A"
    by (simp add: is_surrogate_def is_high_surrogate_def is_low_surrogate_def)
  from 2 have s: "scalar v" by simp
  show ?case
    by (simp add: toWellFormed_QuoteJSONString toWellFormed_js toWellFormed_render_value [OF s]
        toWellFormed_Cons [OF n] del: toWellFormed.simps)
next
  case (3 k v m ms)
  have n: "\<not> is_surrogate 0x0A"
    by (simp add: is_surrogate_def is_high_surrogate_def is_low_surrogate_def)
  from 3 have s: "scalar v" by simp
  from 3 have ih: "toWellFormed (render_members (m # ms) @ b)
      = render_members (m # ms) @ toWellFormed b" by simp
  show ?case
    by (simp add: toWellFormed_QuoteJSONString toWellFormed_js toWellFormed_render_value [OF s]
        toWellFormed_Cons [OF n] ih del: toWellFormed.simps)
qed

lemma toWellFormed_JSON_stringify_UserConfig:
  "toWellFormed (JSON_stringify_UserConfig config) = JSON_stringify_UserConfig config"
proof -
  have n: "\<not> is_surrogate 0x0A"
    by (simp add: is_surrogate_def is_high_surrogate_def is_low_surrogate_def)
  have "toWellFormed (render_members (UserConfig_members config) @ [])
      = render_members (UserConfig_members config) @ toWellFormed []"
    by (rule toWellFormed_render_members [OF UserConfig_members_scalar])
  then have "toWellFormed (render_members (UserConfig_members config))
      = render_members (UserConfig_members config)"
    by simp
  then show ?thesis
    unfolding JSON_stringify_UserConfig_render
    by (simp add: toWellFormed_js toWellFormed_Cons [OF n] del: toWellFormed.simps)
qed

section \<open>Saving the user configuration\<close>

lemma tempPath_neq: "userConfigPath w @ ''.tmp'' \<noteq> userConfigPath w"
  by simp

lemma configDir_neq: "configDir w \<noteq> userConfigPath w"
  by (simp add: userConfigPath_def path_join_def)

lemma ensureConfigDir_result:
  "ensureConfigDir w =
     (if faults w Mkdir (configDir w) = None \<and> files w (configDir w) = None
      then (Normal (), w\<lparr>dirs := insert (configDir w) (dirs w)\<rparr>)
      else (Throw (SystemError (case faults w Mkdir (configDir w) of
                                  Some code \<Rightarrow> code | None \<Rightarrow> ''EEXIST'')),
            w\<lparr>logs := logs w @ [(Err, ''Failed to create config directory: {error}'')]\<rparr>))"
  by (auto simp add: ensureConfigDir_def try_catch_def fs_mkdir_def bind_io_def logger_api_def
      throw_io_def split: option.splits)

lemma saveUserConfig_ok:
  assumes "save_ok w"
  shows "saveUserConfig config w =
    (Normal (),
     w\<lparr>dirs := insert (configDir w) (dirs w),
        files := (files w)(userConfigPath w @ ''.tmp'' := None,
                           userConfigPath w \<mapsto> JSON_stringify_UserConfig config),
        logs := logs w @ [(Info, ''Saved user config to {path}'')]\<rparr>)"
  using assms
  by (simp add: save_ok_def saveUserConfig_def try_catch_def bind_io_def ensureConfigDir_result
      fs_writeFile_def fs_rename_def logger_api_def Let_def toWellFormed_JSON_stringify_UserConfig
      userConfigPath_def configDir_def path_join_def)

lemma saveUserConfig_not_ok:
  assumes "\<not> save_ok w"
  shows "\<exists>e w'. saveUserConfig config w = (Throw e, w')
           \<and> files w' (userConfigPath w) = files w (userConfigPath w)
           \<and> homedir w' = homedir w"
  using assms
  by (auto simp add: save_ok_def saveUserConfig_def try_catch_def bind_io_def ensureConfigDir_result
      fs_writeFile_def fs_rename_def logger_api_def Let_def throw_io_def
      userConfigPath_def configDir_def path_join_def split: option.splits)

lemma saveUserConfig_NormalD:
  assumes "saveUserConfig config w = (Normal (), w1)"
  shows "save_ok w"
    and "w1 = w\<lparr>dirs := insert (configDir w) (dirs w),
                 files := (files w)(userConfigPath w @ ''.tmp'' := None,
                            userConfigPath w \<mapsto> JSON_stringify_UserConfig config),
                 logs := logs w @ [(Info, ''Saved user config to {path}'')]\<rparr>"
proof -
  show ok: "save_ok w"
  proof (rule ccontr)
    assume "\<not> save_ok w"
    from saveUserConfig_not_ok [OF this, of config] assms show False by auto
  qed
  from saveUserConfig_ok [OF ok, of config] assms
  show "w1 = w\<lparr>dirs := insert (configDir w) (dirs w),
                 files := (files w)(userConfigPath w @ ''.tmp'' := None,
                            userConfigPath w \<mapsto> JSON_stringify_UserConfig config),
                 logs := logs w @ [(Info, ''Saved user config to {path}'')]\<rparr>"
    by simp
qed

lemma paths_after_update [simp]:
  "configDir (w\<lparr>dirs := d\<rparr>) = configDir w"
  "configDir (w\<lparr>files := f\<rparr>) = configDir w"
  "configDir (w\<lparr>faults := g\<rparr>) = configDir w"
  "configDir (w\<lparr>logs := l\<rparr>) = configDir w"
  "userConfigPath (w\<lparr>dirs := d\<rparr>) = userConfigPath w"
  "userConfigPath (w\<lparr>files := f\<rparr>) = userConfigPath w"
  "userConfigPath (w\<lparr>faults := g\<rparr>) = userConfigPath w"
  "userConfigPath (w\<lparr>logs := l\<rparr>) = userConfigPath w"
  by (simp_all add: configDir_def userConfigPath_def)

lemma save_ok_again:
  assumes "saveUserConfig config w = (Normal (), w1)"
  shows "save_ok w1"
proof -
  note ok = saveUserConfig_NormalD(1) [OF assms]
  have d: "configDir w \<noteq> userConfigPath w @ ''.tmp''" "configDir w \<noteq> userConfigPath w"
    by (simp_all add: userConfigPath_def path_join_def)
  show ?thesis
    unfolding saveUserConfig_NormalD(2) [OF assms]
    using ok d by (simp add: save_ok_def)
qed

text \<open>
  C8: after a successful \<open>saveUserConfig(config)\<close>, the canonical file holds
  \<open>JSON.stringify(config, null, 2)\<close>; a second call with the same input succeeds and
  leaves every file and directory as the first call left them; and whatever the
  environment does to the second call (it may make any of its steps fail), the canonical
  file still holds the same text.
\<close>

theorem saveUserConfig_idempotent:
  assumes "saveUserConfig config w = (Normal (), w1)"
  shows "files w1 (userConfigPath w1) = Some (JSON_stringify_UserConfig config)
    \<and> (\<exists>w2. saveUserConfig config w1 = (Normal (), w2)
              \<and> files w2 = files w1 \<and> dirs w2 = dirs w1)
    \<and> files (snd (saveUserConfig config (w1\<lparr>faults := f\<rparr>))) (userConfigPath w1)
        = files w1 (userConfigPath w1)"
proof (intro conjI)
  note w1 = saveUserConfig_NormalD(2) [OF assms]
  have p: "userConfigPath w1 = userConfigPath w" "configDir w1 = configDir w"
    unfolding w1 by simp_all
  show c: "files w1 (userConfigPath w1) = Some (JSON_stringify_UserConfig config)"
    unfolding p unfolding w1 by simp
  have "saveUserConfig config w1 =
    (Normal (),
     w1\<lparr>dirs := insert (configDir w1) (dirs w1),
        files := (files w1)(userConfigPath w1 @ ''.tmp'' := None,
                           userConfigPath w1 \<mapsto> JSON_stringify_UserConfig config),
        logs := logs w1 @ [(Info, ''Saved user config to {path}'')]\<rparr>)"
    by (rule saveUserConfig_ok [OF save_ok_again [OF assms]])
  moreover have "(files w1)(userConfigPath w1 @ ''.tmp'' := None,
                           userConfigPath w1 \<mapsto> JSON_stringify_UserConfig config) = files w1"
    unfolding p unfolding w1 by auto
  moreover have "insert (configDir w1) (dirs w1) = dirs w1"
    unfolding p unfolding w1 by auto
  ultimately show "\<exists>w2. saveUserConfig config w1 = (Normal (), w2)
              \<and> files w2 = files w1 \<and> dirs w2 = dirs w1"
    by simp
  show "files (snd (saveUserConfig config (w1\<lparr>faults := f\<rparr>))) (userConfigPath w1)
        = files w1 (userConfigPath w1)"
  proof (cases "save_ok (w1\<lparr>faults := f\<rparr>)")
    case True
    from saveUserConfig_ok [OF True, of config] c show ?thesis by simp
  next
    case False
    from saveUserConfig_not_ok [OF False, of config] show ?thesis by auto
  qed
qed

lemma example_world_save:
  "saveUserConfig config (example_world None s) =
    (Normal (),
     example_world None s
       \<lparr>dirs := {''/home/u/.claude-webui''},
        files := (files (example_world None s))
                   (''/home/u/.claude-webui/config.json.tmp'' := None,
                    ''/home/u/.claude-webui/config.json'' \<mapsto> JSON_stringify_UserConfig config),
        logs := [(Info, ''Saved user config to {path}'')]\<rparr>)"
proof -
  have p: "configDir (example_world None s) = ''/home/u/.claude-webui''"
    "userConfigPath (example_world None s) = ''/home/u/.claude-webui/config.json''"
    by (simp_all add: configDir_def userConfigPath_def path_join_def example_world_def)
  have "save_ok (example_world None s)"
    unfolding save_ok_def p by (simp add: example_world_def)
  from saveUserConfig_ok [OF this, of config] show ?thesis
    unfolding p by (simp add: example_world_def)
qed

theorem saveUserConfig_idempotent_witness:
  \<open>files (snd (saveUserConfig
                 \<lparr>apiKey = Some (js ''sk-ant-1234567890''), baseUrl = None, model = None,
                  useSystemDefaults = False\<rparr>
                 (snd (saveUserConfig
                         \<lparr>apiKey = Some (js ''sk-ant-1234567890''), baseUrl = None, model = None,
                          useSystemDefaults = False\<rparr>
                         (example_world None None))
                    \<lparr>faults := (\<lambda>_ _. Some ''ENOSPC'')\<rparr>)))
     ''/home/u/.claude-webui/config.json''
   = Some (js ''{'' @ [0x0A] @ js ''  "useSystemDefaults": false,'' @ [0x0A]
           @ js ''  "apiKey": "sk-ant-1234567890"'' @ [0x0A] @ js ''}'')\<close>
proof -
  let ?config = "\<lparr>apiKey = Some (js ''sk-ant-1234567890''), baseUrl = None, model = None,
                  useSystemDefaults = False\<rparr>"
  have t: \<open>JSON_stringify_UserConfig ?config =
      js ''{'' @ [0x0A] @ js ''  "useSystemDefaults": false,'' @ [0x0A]
           @ js ''  "apiKey": "sk-ant-1234567890"'' @ [0x0A] @ js ''}''\<close>
    by code_simp
  note s = example_world_save [of ?config None]
  let ?w1 = "snd (saveUserConfig ?config (example_world None None))"
  have s': "saveUserConfig ?config (example_world None None) = (Normal (), ?w1)"
    unfolding s by simp
  have p: "userConfigPath ?w1 = ''/home/u/.claude-webui/config.json''"
    unfolding s by (simp add: userConfigPath_def configDir_def path_join_def example_world_def)
  from saveUserConfig_idempotent [OF s', of "\<lambda>_ _. Some ''ENOSPC''"]
  have "files (snd (saveUserConfig ?config (?w1\<lparr>faults := (\<lambda>_ _. Some ''ENOSPC'')\<rparr>)))
          (userConfigPath ?w1) = Some (JSON_stringify_UserConfig ?config)"
    by simp
  then show ?thesis
    unfolding p t .
qed

text \<open>
  C9: after a successful \<open>saveUserConfig(config)\<close> the file holds the serialisation of
  \<open>config\<close> itself (no field of it is masked on the way to the file), and, with the
  file readable, \<open>getUserConfig\<close> returns exactly \<open>config\<close>: every field, the \<open>apiKey\<close>
  included, comes back as it was saved.
\<close>

theorem save_then_load:
  assumes "saveUserConfig config w = (Normal (), w1)"
    and "faults w1 ReadFile (userConfigPath w1) = None"
  shows "files w1 (userConfigPath w1) = Some (JSON_stringify_UserConfig config)
    \<and> getUserConfig w1 =
        (Normal (Some config),
         w1\<lparr>logs := logs w1 @ [(Info, ''Loaded user config from {path}'')]\<rparr>)"
proof -
  note w1 = saveUserConfig_NormalD(2) [OF assms(1)]
  note ok = saveUserConfig_NormalD(1) [OF assms(1)]
  have p: "userConfigPath w1 = userConfigPath w"
    unfolding w1 by simp
  have c: "files w1 (userConfigPath w1) = Some (JSON_stringify_UserConfig config)"
    unfolding p unfolding w1 by simp
  have d: "userConfigPath w1 \<notin> dirs w1"
    unfolding p unfolding w1 using ok by (simp add: save_ok_def)
  have r: "fs_readFile (userConfigPath w1) w1 = (Normal (JSON_stringify_UserConfig config), w1)"
    by (rule fs_readFile_ok [OF assms(2) d c])
  from c getUserConfig_loaded [OF r JSON_parse_UserConfig as_UserConfig_members]
  show ?thesis by simp
qed

theorem save_then_load_witness:
  \<open>fst (getUserConfig (snd (saveUserConfig
            \<lparr>apiKey = Some (js ''a"b'' @ [0x5C, 0x0A, 0x01, 0xD83D, 0xDE00, 0xDC00, 0x3000] @ js ''c''),
             baseUrl = Some (js ''https://custom''), model = None, useSystemDefaults = False\<rparr>
            (example_world None None))))
   = Normal (Some \<lparr>apiKey = Some (js ''a"b'' @ [0x5C, 0x0A, 0x01, 0xD83D, 0xDE00, 0xDC00, 0x3000] @ js ''c''),
                    baseUrl = Some (js ''https://custom''), model = None,
                    useSystemDefaults = False\<rparr>)\<close>
proof -
  let ?config = \<open>\<lparr>apiKey = Some (js ''a"b'' @ [0x5C, 0x0A, 0x01, 0xD83D, 0xDE00, 0xDC00, 0x3000] @ js ''c''),
             baseUrl = Some (js ''https://custom''), model = None, useSystemDefaults = False\<rparr>\<close>
  note s = example_world_save [of ?config None]
  have f: "faults (snd (saveUserConfig ?config (example_world None None))) ReadFile p = None" for p
    unfolding s by (simp add: example_world_def)
  have "saveUserConfig ?config (example_world None None) =
      (Normal (), snd (saveUserConfig ?config (example_world None None)))"
    unfolding s by simp
  from save_then_load [OF this f] show ?thesis
    by simp
qed

section \<open>The parser never runs out of fuel\<close>

lemma skip_ws_length: "length (skip_ws cs) \<le> length cs"
  by (simp add: skip_ws_def length_dropWhile_le)

lemma skip_ws_Cons_length: "skip_ws cs = c # r \<Longrightarrow> length r < length cs"
  using skip_ws_length [of cs] by simp

lemma parse_chars_length: "parse_chars cs = Some (s, r) \<Longrightarrow> length r < length cs"
proof (induction cs arbitrary: s r rule: parse_chars.induct)
  case 1
  then show ?case by simp
next
  case (2 c cs)
  show ?case
    using "2.prems" "2.IH"
    by (fastforce split: if_splits list.splits option.splits prod.splits)
qed

lemma if_None_SomeD: "(if b then None else x) = Some y \<Longrightarrow> x = Some y"
  by (simp split: if_splits)

lemma if_None_SomeN: "(if b then None else x) = Some y \<Longrightarrow> \<not> b"
  by (simp split: if_splits)

lemma length_dropWhile_tl_le: "length (dropWhile p (tl xs)) \<le> length xs"
proof -
  have "length (dropWhile p (tl xs)) \<le> length (tl xs)" by (rule length_dropWhile_le)
  also have "\<dots> \<le> length xs" by simp
  finally show ?thesis .
qed

lemma parse_number_length: "parse_number cs = Some (v, r) \<Longrightarrow> length r < length cs"
proof -
  assume a: "parse_number cs = Some (v, r)"
  let ?neg = "(case cs of c # _ \<Rightarrow> c = 0x2D | [] \<Rightarrow> False)"
  let ?r0 = "(if ?neg then tl cs else cs)"
  let ?ip = "takeWhile is_digit ?r0"
  let ?r1 = "dropWhile is_digit ?r0"
  let ?has_frac = "(case ?r1 of c # _ \<Rightarrow> c = 0x2E | [] \<Rightarrow> False)"
  let ?r2 = "(if ?has_frac then dropWhile is_digit (tl ?r1) else ?r1)"
  let ?has_exp = "(case ?r2 of c # _ \<Rightarrow> c = 0x65 \<or> c = 0x45 | [] \<Rightarrow> False)"
  let ?r3 = "(if ?has_exp then tl ?r2 else ?r2)"
  let ?eneg = "(?has_exp \<and> (case ?r3 of c # _ \<Rightarrow> c = 0x2D | [] \<Rightarrow> False))"
  let ?epos = "(?has_exp \<and> (case ?r3 of c # _ \<Rightarrow> c = 0x2B | [] \<Rightarrow> False))"
  let ?r4 = "(if ?eneg \<or> ?epos then tl ?r3 else ?r3)"
  let ?r5 = "(if ?has_exp then dropWhile is_digit ?r4 else ?r2)"
  note u = a [unfolded parse_number_def Let_def]
  from if_None_SomeN [OF u] have ip: "?ip \<noteq> []" by blast
  note u3 = u [THEN if_None_SomeD, THEN if_None_SomeD, THEN if_None_SomeD]
  from u3 have r: "r = ?r5" by (simp only: option.inject prod.inject)
  have "length ?ip + length ?r1 = length ?r0"
    by (metis length_append takeWhile_dropWhile_id)
  with ip have r1: "length ?r1 < length ?r0" by (cases ?ip) auto
  have r0: "length ?r0 \<le> length cs"
    by (cases ?neg) (simp_all only: if_True if_False length_tl le_refl diff_le_self)
  have r2: "length ?r2 \<le> length ?r1"
    by (cases ?has_frac) (simp_all only: if_True if_False length_dropWhile_tl_le le_refl)
  have r3: "length ?r3 \<le> length ?r2"
    by (cases ?has_exp) (simp_all only: if_True if_False length_tl le_refl diff_le_self)
  have r4: "length ?r4 \<le> length ?r3"
    by (cases "?eneg \<or> ?epos") (simp_all only: if_True if_False length_tl le_refl diff_le_self)
  have "length (dropWhile is_digit ?r4) \<le> length ?r4" by (rule length_dropWhile_le)
  with r4 r3 have "length (dropWhile is_digit ?r4) \<le> length ?r2" by linarith
  then have r5: "length ?r5 \<le> length ?r2"
    by (cases ?has_exp) (simp_all only: if_True if_False le_refl)
  note l = le_less_trans [OF r5 le_less_trans [OF r2 less_le_trans [OF r1 r0]]]
  show ?thesis unfolding r by (rule l)
qed

lemma parse_length:
  "parse_value n cs = Some (v, r) \<Longrightarrow> length r < length cs"
  "parse_members n ms cs = Some (v, r) \<Longrightarrow> length r < length cs"
  "parse_elements n es cs = Some (v, r) \<Longrightarrow> length r < length cs"
proof (induction n cs and n ms cs and n es cs arbitrary: v r and v r and v r
    rule: parse_value_parse_members_parse_elements.induct)
  case (1 cs)
  then show ?case by simp
next
  case (2 n cs)
  from "2.prems" obtain c r0 where s: "skip_ws cs = c # r0"
    by (cases "skip_ws cs") auto
  note l0 = skip_ws_Cons_length [OF s]
  consider (obj) "c = 0x7B" | (arr) "c \<noteq> 0x7B" "c = 0x5B"
    | (str) "c \<noteq> 0x7B" "c \<noteq> 0x5B" "c = 0x22"
    | (lit) "c \<noteq> 0x7B" "c \<noteq> 0x5B" "c \<noteq> 0x22"
    by blast
  then show ?case
  proof cases
    case obj
    from "2.prems" s obj obtain c' r' where s': "skip_ws r0 = c' # r'"
      by (cases "skip_ws r0") auto
    note l1 = skip_ws_Cons_length [OF s']
    show ?thesis
    proof (cases "c' = 0x7D")
      case True
      with "2.prems" s obj s' l0 l1 show ?thesis by auto
    next
      case False
      with "2.prems" s obj s' have "parse_members n [] (c' # r') = Some (v, r)" by simp
      from "2.IH"(1) [OF s obj s' False this] l0 l1 show ?thesis by simp
    qed
  next
    case arr
    from "2.prems" s arr obtain c' r' where s': "skip_ws r0 = c' # r'"
      by (cases "skip_ws r0") auto
    note l1 = skip_ws_Cons_length [OF s']
    show ?thesis
    proof (cases "c' = 0x5D")
      case True
      with "2.prems" s arr s' l0 l1 show ?thesis by auto
    next
      case False
      with "2.prems" s arr s' have "parse_elements n [] (c' # r') = Some (v, r)" by simp
      from "2.IH"(2) [OF s arr s' False this] l0 l1 show ?thesis by simp
    qed
  next
    case str
    with "2.prems" s obtain x where "parse_chars r0 = Some (x, r)"
      by (auto split: option.splits)
    from parse_chars_length [OF this] l0 show ?thesis by simp
  next
    case lit
    have "length r \<le> length r0"
      using "2.prems" s lit parse_number_length [of "c # r0" v r]
      by (auto split: if_splits)
    with l0 show ?thesis by simp
  qed
next
  case (3 ms cs)
  then show ?case by simp
next
  case (4 n ms cs)
  from "4.prems" obtain c r0 where s: "skip_ws cs = c # r0"
    by (cases "skip_ws cs") auto
  note l0 = skip_ws_Cons_length [OF s]
  from "4.prems" s have c: "\<not> c \<noteq> 0x22" by (auto split: if_splits)
  from "4.prems" s c obtain k r1 where k: "parse_chars r0 = Some (k, r1)"
    by (auto split: option.splits)
  note l1 = parse_chars_length [OF k]
  from "4.prems" s c k obtain c1 r2 where s1: "skip_ws r1 = c1 # r2"
    by (cases "skip_ws r1") auto
  note l2 = skip_ws_Cons_length [OF s1]
  from "4.prems" s c k s1 have c1: "\<not> c1 \<noteq> 0x3A" by (auto split: if_splits)
  from "4.prems" s c k s1 c1 obtain x r3 where x: "parse_value n r2 = Some (x, r3)"
    by (auto split: option.splits)
  note l3 = "4.IH"(1) [OF s c k refl s1 c1 x]
  from "4.prems" s c k s1 c1 x obtain c2 r4 where s2: "skip_ws r3 = c2 # r4"
    by (cases "skip_ws r3") auto
  note l4 = skip_ws_Cons_length [OF s2]
  show ?case
  proof (cases "c2 = 0x2C")
    case True
    with "4.prems" s c k s1 c1 x s2 have "parse_members n (ms @ [(k, x)]) r4 = Some (v, r)"
      by simp
    from "4.IH"(2) [OF s c k refl s1 c1 x refl s2 True this]
    have "length r < length r4" by simp
    with l0 l1 l2 l3 l4 show ?thesis by linarith
  next
    case False
    with "4.prems" s c k s1 c1 x s2 have "r = r4" by (auto split: if_splits)
    with l0 l1 l2 l3 l4 show ?thesis by simp
  qed
next
  case (5 es cs)
  then show ?case by simp
next
  case (6 n es cs)
  from "6.prems" obtain x r0 where x: "parse_value n cs = Some (x, r0)"
    by (auto split: option.splits)
  note l0 = "6.IH"(1) [OF x]
  from "6.prems" x obtain c r1 where s: "skip_ws r0 = c # r1"
    by (cases "skip_ws r0") auto
  note l1 = skip_ws_Cons_length [OF s]
  show ?case
  proof (cases "c = 0x2C")
    case True
    with "6.prems" x s have "parse_elements n (es @ [x]) r1 = Some (v, r)" by simp
    from "6.IH"(2) [OF x refl s True this] have "length r < length r1" by simp
    with l0 l1 show ?thesis by linarith
  next
    case False
    with "6.prems" x s have "r = r1" by (auto split: if_splits)
    with l0 l1 show ?thesis by simp
  qed
qed

lemmas parse_simps_off = parse_value.simps parse_members.simps parse_elements.simps

lemma fuel_adequate:
  "2 * length cs < n \<Longrightarrow> parse_value (Suc n) cs = parse_value n cs"
  "2 * length cs < n \<Longrightarrow> parse_members (Suc n) ms cs = parse_members n ms cs"
  "2 * length cs + 1 < n \<Longrightarrow> parse_elements (Suc n) es cs = parse_elements n es cs"
proof (induction n cs and n ms cs and n es cs
    rule: parse_value_parse_members_parse_elements.induct)
  case (1 cs)
  then show ?case by simp
next
  case (2 n cs)
  show ?case
  proof (cases "skip_ws cs")
    case Nil
    then show ?thesis by simp
  next
    case (Cons c r0)
    note l0 = skip_ws_Cons_length [OF Cons]
    show ?thesis
    proof (cases "skip_ws r0")
      case Nil
      with Cons show ?thesis
        unfolding parse_value.simps(2) [of "Suc n" cs] parse_value.simps(2) [of n cs]
        by (simp del: parse_simps_off)
    next
      case r0: (Cons c' r')
      note l1 = skip_ws_Cons_length [OF r0]
      from l0 l1 "2.prems" have l: "2 * length (c' # r') < n" "2 * length (c' # r') + 1 < n"
        by simp_all
      have m: "parse_members (Suc n) [] (c' # r') = parse_members n [] (c' # r')"
        if "c = 0x7B" "c' \<noteq> 0x7D"
        using "2.IH"(1) [OF Cons that(1) r0 that(2) l(1)] .
      have e: "parse_elements (Suc n) [] (c' # r') = parse_elements n [] (c' # r')"
        if "c \<noteq> 0x7B" "c = 0x5B" "c' \<noteq> 0x5D"
        using "2.IH"(2) [OF Cons that(1,2) r0 that(3) l(2)] .
      show ?thesis
        unfolding parse_value.simps(2) [of "Suc n" cs] parse_value.simps(2) [of n cs]
        using m e by (auto simp add: Cons r0 simp del: parse_simps_off)
    qed
  qed
next
  case (3 ms cs)
  then show ?case by simp
next
  case (4 n ms cs)
  show ?case
  proof (cases "skip_ws cs")
    case Nil
    then show ?thesis by simp
  next
    case (Cons c r0)
    note l0 = skip_ws_Cons_length [OF Cons]
    show ?thesis
    proof (cases "c \<noteq> 0x22")
      case True
      with Cons show ?thesis by simp
    next
      case c: False
      show ?thesis
      proof (cases "parse_chars r0")
        case None
        with Cons c show ?thesis by simp
      next
        case (Some kr)
        obtain k r1 where kr: "kr = (k, r1)" by (cases kr)
        note l1 = parse_chars_length [OF Some [unfolded kr]]
        show ?thesis
        proof (cases "skip_ws r1")
          case Nil
          with Cons c Some kr show ?thesis by simp
        next
          case r1: (Cons c1 r2)
          note l2 = skip_ws_Cons_length [OF r1]
          show ?thesis
          proof (cases "c1 \<noteq> 0x3A")
            case True
            with Cons c Some kr r1 show ?thesis by simp
          next
            case c1: False
            from l0 l1 l2 "4.prems" have "2 * length r2 < n" by simp
            note pv = "4.IH"(1) [OF Cons c Some kr [symmetric] r1 c1 this]
            show ?thesis
            proof (cases "parse_value n r2")
              case None
              show ?thesis
                unfolding parse_members.simps(2) [of "Suc n" ms cs] parse_members.simps(2) [of n ms cs]
                by (simp add: Cons c Some kr r1 c1 pv None del: parse_simps_off)
            next
              case x: (Some xr)
              obtain x r3 where xr: "xr = (x, r3)" by (cases xr)
              note l3 = parse_length(1) [OF x [unfolded xr]]
              show ?thesis
              proof (cases "skip_ws r3")
                case Nil
                show ?thesis
                  unfolding parse_members.simps(2) [of "Suc n" ms cs] parse_members.simps(2) [of n ms cs]
                  by (simp add: Cons c Some kr r1 c1 pv x xr Nil del: parse_simps_off)
              next
                case r3: (Cons c2 r4)
                note l4 = skip_ws_Cons_length [OF r3]
                from l0 l1 l2 l3 l4 "4.prems" have l: "2 * length r4 < n" by simp
                have pm: "parse_members (Suc n) (ms @ [(k, x)]) r4
                    = parse_members n (ms @ [(k, x)]) r4" if "c2 = 0x2C"
                  using "4.IH"(2) [OF Cons c Some kr [symmetric] r1 c1 x xr [symmetric] r3 that l] .
                show ?thesis
                  unfolding parse_members.simps(2) [of "Suc n" ms cs] parse_members.simps(2) [of n ms cs]
                  using pm by (simp add: Cons c Some kr r1 c1 pv x xr r3 del: parse_simps_off)
              qed
            qed
          qed
        qed
      qed
    qed
  qed
next
  case (5 es cs)
  then show ?case by simp
next
  case (6 n es cs)
  from "6.prems" have "2 * length cs < n" by simp
  note pv = "6.IH"(1) [OF this]
  show ?case
  proof (cases "parse_value n cs")
    case None
    show ?thesis
      unfolding parse_elements.simps(2) [of "Suc n" es cs] parse_elements.simps(2) [of n es cs]
      by (simp add: pv None del: parse_simps_off)
  next
    case x: (Some xr)
    obtain x r0 where xr: "xr = (x, r0)" by (cases xr)
    note l0 = parse_length(1) [OF x [unfolded xr]]
    show ?thesis
    proof (cases "skip_ws r0")
      case Nil
      show ?thesis
        unfolding parse_elements.simps(2) [of "Suc n" es cs] parse_elements.simps(2) [of n es cs]
        by (simp add: pv x xr Nil del: parse_simps_off)
    next
      case r0: (Cons c r1)
      note l1 = skip_ws_Cons_length [OF r0]
      from l0 l1 "6.prems" have l: "2 * length r1 + 1 < n" by simp
      have pe: "parse_elements (Suc n) (es @ [x]) r1 = parse_elements n (es @ [x]) r1"
        if "c = 0x2C"
        using "6.IH"(2) [OF x xr [symmetric] r0 that l] .
      show ?thesis
        unfolding parse_elements.simps(2) [of "Suc n" es cs] parse_elements.simps(2) [of n es cs]
        using pe by (simp add: pv x xr r0 del: parse_simps_off)
    qed
  qed
qed

lemma fuel_irrelevant:
  "2 * length cs < n \<Longrightarrow> parse_value (n + k) cs = parse_value n cs"
proof (induction k)
  case 0
  show ?case by simp
next
  case (Suc k)
  then have "2 * length cs < n + k" by simp
  from fuel_adequate(1) [OF this] Suc show ?case
    by (simp del: parse_simps_off)
qed

text \<open>
  More fuel than \<open>JSON_parse\<close> gives the parser never changes its answer: no parse ends
  for want of fuel.
\<close>

lemma JSON_parse_fuel:
  "JSON_parse data =
     (case parse_value (Suc (2 * length data) + k) data of
        None \<Rightarrow> None
      | Some (v, rest) \<Rightarrow> if skip_ws rest = [] then Some v else None)"
  unfolding JSON_parse_def
  by (simp only: fuel_irrelevant [of data "Suc (2 * length data)" k, OF lessI])

section \<open>Every user configuration can be on file\<close>

text \<open>
  The theorems about resolution speak of the configuration \<open>getUserConfig\<close> returns.
  Every value of type \<open>UserConfig\<close> is returned in some world: the one whose file holds
  its serialisation.
\<close>

lemma every_UserConfig_loads:
  "\<exists>w w'. getUserConfig w = (Normal (Some config), w')"
  using example_world_user [OF JSON_parse_UserConfig as_UserConfig_members] by blast

section \<open>What the save handler lets through\<close>

text \<open>
  A configuration whose \<open>baseUrl\<close> is a single space is one the save handler accepts
  and writes: only the \<open>apiKey\<close> is validated.
\<close>

lemma handleSaveConfig_accepts_blank_baseUrl:
  \<open>handleSaveConfig \<lparr>req_body = js ''{"useSystemDefaults": false, "apiKey": "k", "baseUrl": " "}''\<rparr>
      (example_world None None)
   = (Normal \<lparr>status = 200,
               body = JObj [(js ''useSystemDefaults'', JBool False), (js ''apiKey'', JStr (js ''***'')),
                            (js ''baseUrl'', JStr (js '' ''))]\<rparr>,
      snd (saveUserConfig
             \<lparr>apiKey = Some (js ''k''), baseUrl = Some (js '' ''), model = None, useSystemDefaults = False\<rparr>
             (example_world None None)))\<close>
proof -
  let ?c = \<open>\<lparr>req_body = js ''{"useSystemDefaults": false, "apiKey": "k", "baseUrl": " "}''\<rparr>\<close>
  let ?req = "\<lparr>apiKey = Some (js ''k''), baseUrl = Some (js '' ''), model = None, useSystemDefaults = False\<rparr>"
  have p: \<open>JSON_parse (js ''{"useSystemDefaults": false, "apiKey": "k", "baseUrl": " "}'')
      = Some (JObj [(js ''useSystemDefaults'', JBool False),
      (js ''apiKey'', JStr (js ''k'')), (js ''baseUrl'', JStr (js '' ''))])\<close>
    by code_simp
  have r: "as_SaveConfigRequest (JObj [(js ''useSystemDefaults'', JBool False),
      (js ''apiKey'', JStr (js ''k'')), (js ''baseUrl'', JStr (js '' ''))]) = Normal ?req"
    by (simp add: as_SaveConfigRequest_def as_UserConfig_object_def obj_get_def as_opt_string_def)
  have b: "\<not> blank (Some (js ''k''))"
    by (simp add: blank_def truthy_str_def js_trim_def is_js_space_def js_def)
  have m: "maskApiKey (Some (js ''k'')) = Some (js ''***'')"
    by (simp add: maskApiKey_def truthy_str_def)
  note s = example_world_save [of ?req None]
  show ?thesis
    unfolding handleSaveConfig_def
    by (simp add: try_catch_def bind_io_def c_req_json_def JSON_parse_io_def p r b s m
        return_io_def lift_io_def c_json_def UserConfigResponse_def object_fields4)
qed

text \<open>
  Only white space is blank. The key that the request writes as \<open>"\u0120"\<close> is the one
  code unit \<open>U+0120\<close>, which \<open>trim\<close> leaves alone: the handler accepts it, writes it
  and answers with its mask.
\<close>

lemma handleSaveConfig_accepts_other_code_units:
  \<open>handleSaveConfig
      \<lparr>req_body = js ''{"useSystemDefaults": false, "apiKey": "'' @ 0x5C # js ''u0120"}''\<rparr>
      (example_world None None)
   = (Normal \<lparr>status = 200,
               body = JObj [(js ''useSystemDefaults'', JBool False),
                            (js ''apiKey'', JStr (js ''***''))]\<rparr>,
      snd (saveUserConfig
             \<lparr>apiKey = Some [0x0120], baseUrl = None, model = None, useSystemDefaults = False\<rparr>
             (example_world None None)))\<close>
proof -
  let ?req = "\<lparr>apiKey = Some [0x0120], baseUrl = None, model = None, useSystemDefaults = False\<rparr>"
  have p: \<open>JSON_parse (js ''{"useSystemDefaults": false, "apiKey": "'' @ 0x5C # js ''u0120"}'')
      = Some (JObj [(js ''useSystemDefaults'', JBool False), (js ''apiKey'', JStr [0x0120])])\<close>
    by code_simp
  have r: "as_SaveConfigRequest (JObj [(js ''useSystemDefaults'', JBool False),
      (js ''apiKey'', JStr [0x0120])]) = Normal ?req"
    by (simp add: as_SaveConfigRequest_def as_UserConfig_object_def obj_get_def as_opt_string_def)
  have b: "\<not> blank (Some [0x0120])"
    by (simp add: blank_def truthy_str_def js_trim_def is_js_space_def)
  have m: "maskApiKey (Some [0x0120]) = Some (js ''***'')"
    by (simp add: maskApiKey_def truthy_str_def)
  note s = example_world_save [of ?req None]
  show ?thesis
    unfolding handleSaveConfig_def
    by (simp add: try_catch_def bind_io_def c_req_json_def JSON_parse_io_def p r b s m
        return_io_def lift_io_def c_json_def UserConfigResponse_def object_fields4)
qed

end
